theory Spec2Isabelle
  imports Complex_Main "HOL-Library.Word"
begin

section \<open>Binary64 numbers\<close>

text \<open>
  The accumulators of \<^verbatim>\<open>meter.cpp\<close> compute with C++ \<^verbatim>\<open>double\<close>. A double is
  modelled by the value it denotes: not-a-number, one of the two infinities, or a finite
  real. The sign of a zero is not represented: the comparisons \<^verbatim>\<open><\<close> and \<^verbatim>\<open>>\<close>
  treat both zeros alike, and the only divisors of \<^verbatim>\<open>meter.cpp\<close> (a power of ten and
  an unsigned count) are never a negative zero.
\<close>

datatype double = NaN | PInf | MInf | Fin real

text \<open>The comparisons \<^verbatim>\<open>a < b\<close>, \<^verbatim>\<open>a > b\<close> and \<^verbatim>\<open>std::isnan\<close>: a comparison
  with not-a-number is false.\<close>

fun dlt :: "double \<Rightarrow> double \<Rightarrow> bool" where
  "dlt NaN b = False"
| "dlt a NaN = False"
| "dlt PInf b = False"
| "dlt a MInf = False"
| "dlt MInf b = True"
| "dlt (Fin x) PInf = True"
| "dlt (Fin x) (Fin y) = (x < y)"

definition dgt :: "double \<Rightarrow> double \<Rightarrow> bool" where
  "dgt a b = dlt b a"

fun isnan :: "double \<Rightarrow> bool" where
  "isnan NaN = True"
| "isnan a = False"

text \<open>
  Rounding to the nearest binary64 number, ties to the even significand. \<open>expo x\<close> is
  the binary exponent of a positive \<open>x\<close> (\<open>2 ^ e \<le> x < 2 ^ (e + 1)\<close>), \<open>rne\<close> rounds
  to the nearest integer, ties to even, and \<open>d64\<close> rounds a real to 53 significant
  bits, with gradual underflow below \<open>2 ^ - 1022\<close> and overflow to an infinity when
  the rounded magnitude reaches \<open>2 ^ 1024\<close>. A decimal literal of the source denotes \<open>d64\<close> of its value, and
  every arithmetic operation returns \<open>d64\<close> of the exact result.
\<close>

definition pow2 :: "int \<Rightarrow> real" where
  "pow2 e = (if 0 \<le> e then 2 ^ nat e else 1 / 2 ^ nat (- e))"

function expo :: "real \<Rightarrow> int" where
  "expo x = (if 2 \<le> x then expo (x / 2) + 1
             else if 0 < x \<and> x < 1 then expo (2 * x) - 1 else 0)"
  by pat_completeness auto

termination
proof (relation "measure (\<lambda>x. if 1 \<le> x then nat \<lfloor>x\<rfloor> else nat \<lceil>1 / x\<rceil> + 1)")
  show "wf (measure (\<lambda>x::real. if 1 \<le> x then nat \<lfloor>x\<rfloor> else nat \<lceil>1 / x\<rceil> + 1))"
    by simp
next
  fix x :: real
  assume "2 \<le> x"
  then have "nat \<lfloor>x / 2\<rfloor> < nat \<lfloor>x\<rfloor>" by linarith
  with \<open>2 \<le> x\<close>
  show "(x / 2, x) \<in> measure (\<lambda>x. if 1 \<le> x then nat \<lfloor>x\<rfloor> else nat \<lceil>1 / x\<rceil> + 1)"
    by simp
next
  fix x :: real
  assume a: "\<not> 2 \<le> x" "0 < x \<and> x < 1"
  define y where "y = 1 / x"
  have y: "1 < y" using a by (simp add: y_def)
  have e: "1 / (2 * x) = y / 2" by (simp add: y_def)
  have stop: "nat \<lfloor>2 * x\<rfloor> < nat \<lceil>y\<rceil> + 1" if "1 \<le> 2 * x"
  proof -
    have "2 \<le> \<lceil>y\<rceil>" using y by linarith
    moreover have "\<lfloor>2 * x\<rfloor> \<le> 1" using a by linarith
    ultimately show ?thesis by linarith
  qed
  have double: "nat \<lceil>y / 2\<rceil> < nat \<lceil>y\<rceil>" if "\<not> 1 \<le> 2 * x"
  proof -
    have "2 < y" using a that by (simp add: y_def field_simps)
    then have "\<lceil>y / 2\<rceil> < \<lceil>y\<rceil>" "0 < \<lceil>y\<rceil>" by linarith+
    then show ?thesis by linarith
  qed
  show "(2 * x, x) \<in> measure (\<lambda>x. if 1 \<le> x then nat \<lfloor>x\<rfloor> else nat \<lceil>1 / x\<rceil> + 1)"
    using a stop double by (simp add: e flip: y_def)
qed

declare expo.simps [simp del]

definition rne :: "real \<Rightarrow> int" where
  "rne x = (let f = \<lfloor>x\<rfloor>; r = x - of_int f in
     if r < 1 / 2 then f else if 1 / 2 < r then f + 1 else if even f then f else f + 1)"

definition d64 :: "real \<Rightarrow> double" where
  "d64 x = (if x = 0 then Fin 0
     else if 2 ^ 1024 \<le> \<bar>x\<bar> then (if 0 < x then PInf else MInf)
     else
       let q = max (expo \<bar>x\<bar>) (- 1022) - 52;
           y = of_int (rne (x / pow2 q)) * pow2 q
       in if 2 ^ 1024 \<le> \<bar>y\<bar> then (if 0 < x then PInf else MInf) else Fin y)"

text \<open>Addition \<^verbatim>\<open>a + b\<close>: infinities of opposite sign give not-a-number.\<close>

fun dadd :: "double \<Rightarrow> double \<Rightarrow> double" where
  "dadd NaN b = NaN"
| "dadd a NaN = NaN"
| "dadd PInf MInf = NaN"
| "dadd MInf PInf = NaN"
| "dadd PInf b = PInf"
| "dadd MInf b = MInf"
| "dadd a PInf = PInf"
| "dadd a MInf = MInf"
| "dadd (Fin x) (Fin y) = d64 (x + y)"

text \<open>Multiplication \<^verbatim>\<open>a * b\<close>: an infinity times zero is not-a-number.\<close>

definition inf_of_sign :: "bool \<Rightarrow> double" where
  "inf_of_sign neg = (if neg then MInf else PInf)"

fun dmul :: "double \<Rightarrow> double \<Rightarrow> double" where
  "dmul NaN b = NaN"
| "dmul a NaN = NaN"
| "dmul PInf PInf = PInf"
| "dmul PInf MInf = MInf"
| "dmul MInf PInf = MInf"
| "dmul MInf MInf = PInf"
| "dmul PInf (Fin y) = (if y = 0 then NaN else inf_of_sign (y < 0))"
| "dmul MInf (Fin y) = (if y = 0 then NaN else inf_of_sign (0 < y))"
| "dmul (Fin x) PInf = (if x = 0 then NaN else inf_of_sign (x < 0))"
| "dmul (Fin x) MInf = (if x = 0 then NaN else inf_of_sign (0 < x))"
| "dmul (Fin x) (Fin y) = d64 (x * y)"

text \<open>Division \<^verbatim>\<open>a / b\<close>; a zero divisor is the positive zero (see above).\<close>

fun ddiv :: "double \<Rightarrow> double \<Rightarrow> double" where
  "ddiv NaN b = NaN"
| "ddiv a NaN = NaN"
| "ddiv PInf PInf = NaN"
| "ddiv PInf MInf = NaN"
| "ddiv MInf PInf = NaN"
| "ddiv MInf MInf = NaN"
| "ddiv PInf (Fin y) = inf_of_sign (y < 0)"
| "ddiv MInf (Fin y) = inf_of_sign (0 \<le> y)"
| "ddiv (Fin x) PInf = Fin 0"
| "ddiv (Fin x) MInf = Fin 0"
| "ddiv (Fin x) (Fin y) =
     (if y = 0 then (if x = 0 then NaN else inf_of_sign (x < 0)) else d64 (x / y))"

text \<open>\<^verbatim>\<open>floor\<close> of \<^verbatim>\<open><cmath>\<close>: exact, and the identity on infinities and not-a-number.\<close>

fun dfloor :: "double \<Rightarrow> double" where
  "dfloor (Fin x) = Fin (of_int \<lfloor>x\<rfloor>)"
| "dfloor a = a"

text \<open>
  \<^verbatim>\<open>pow(10, decimalPlaces)\<close>, taken as correctly rounded. For the precisions the
  accumulators use (0, 1 and 2) the power is a small integer and the result is exact.
\<close>

definition pow10 :: "int \<Rightarrow> double" where
  "pow10 p = d64 (if 0 \<le> p then 10 ^ nat p else 1 / 10 ^ nat (- p))"

text \<open>The conversion of a \<^verbatim>\<open>uint32_t\<close> to \<^verbatim>\<open>double\<close>, which is exact.\<close>

type_synonym u32 = "32 word"

definition double_of_u32 :: "u32 \<Rightarrow> double" where
  "double_of_u32 n = Fin (real (unat n))"

section \<open>Rounding to decimal places\<close>

text \<open>
  \<^verbatim>\<open>static double round(double n, int decimalPlaces)
  { return floor(pow(10, decimalPlaces) * n) / pow(10, decimalPlaces); }\<close>
\<close>

definition round_dp :: "double \<Rightarrow> int \<Rightarrow> double" where
  "round_dp n decimalPlaces =
     ddiv (dfloor (dmul (pow10 decimalPlaces) n)) (pow10 decimalPlaces)"

section \<open>Assertions\<close>

text \<open>
  \<^verbatim>\<open>assert(c)\<close> of \<^verbatim>\<open><cassert>\<close>. When the program is compiled with \<^verbatim>\<open>NDEBUG\<close>
  (\<open>ndebug\<close>) the assertion is no code at all and execution goes on; otherwise a false
  condition terminates the process, and the function that holds it returns nothing
  (\<open>None\<close>). The failure branches of \<^verbatim>\<open>meter.cpp\<close> are all of the shape
  \<^verbatim>\<open>assert(false); return false;\<close>.
\<close>

definition assert_c :: "bool \<Rightarrow> bool \<Rightarrow> 'a option \<Rightarrow> 'a option" where
  "assert_c ndebug c k = (if ndebug \<or> c then k else None)"

section \<open>Histogram bins and their boundaries\<close>

definition HISTOGRAM_BINS :: nat where
  "HISTOGRAM_BINS = 12"

definition EXPECTED_VOLTAGE :: nat where
  "EXPECTED_VOLTAGE = 230"

definition EXPECTED_FREQUENCY :: nat where
  "EXPECTED_FREQUENCY = 50"

text \<open>
  The boundary tables of \<^verbatim>\<open>meter.h\<close>. \<^verbatim>\<open>HUGE_VAL\<close> is plus infinity. The header
  selects the voltage and the frequency table by \<^verbatim>\<open>EXPECTED_VOLTAGE\<close> and
  \<^verbatim>\<open>EXPECTED_FREQUENCY\<close>; both alternatives are kept here.
\<close>

definition binBoundaryV110 :: "double list" where
  "binBoundaryV110 = [d64 85, d64 90, d64 95, d64 100, d64 105, d64 110,
                      d64 115, d64 120, d64 125, d64 130, d64 135, PInf]"

definition binBoundaryV230 :: "double list" where
  "binBoundaryV230 = [d64 205, d64 210, d64 215, d64 220, d64 225, d64 230,
                      d64 235, d64 240, d64 245, d64 250, d64 255, PInf]"

definition binBoundaryV :: "double list" where
  "binBoundaryV = (if EXPECTED_VOLTAGE = 110 then binBoundaryV110 else binBoundaryV230)"

definition binBoundaryI :: "double list" where
  "binBoundaryI = [d64 (5 / 100), d64 (1 / 10), d64 (2 / 10), d64 (5 / 10), d64 1, d64 2,
                   d64 5, d64 10, d64 20, d64 50, d64 100, PInf]"

definition binBoundaryP :: "double list" where
  "binBoundaryP = [d64 (- 10000), d64 (- 3000), d64 (- 1000), d64 (- 300), d64 (- 100), d64 0,
                   d64 100, d64 300, d64 1000, d64 3000, d64 10000, PInf]"

definition binBoundaryQ :: "double list" where
  "binBoundaryQ = [d64 (- 10000), d64 (- 3000), d64 (- 1000), d64 (- 300), d64 (- 100), d64 0,
                   d64 100, d64 300, d64 1000, d64 3000, d64 10000, PInf]"

definition binBoundaryPF :: "double list" where
  "binBoundaryPF = [d64 (- 1), d64 (- (8 / 10)), d64 (- (6 / 10)), d64 (- (4 / 10)),
                    d64 (- (2 / 10)), d64 0,
                    d64 (2 / 10), d64 (4 / 10), d64 (6 / 10), d64 (8 / 10), d64 1, PInf]"

definition binBoundaryF50 :: "double list" where
  "binBoundaryF50 = [d64 (4975 / 100), d64 (4980 / 100), d64 (4985 / 100), d64 (4990 / 100),
                     d64 (4995 / 100), d64 50,
                     d64 (5005 / 100), d64 (5010 / 100), d64 (5015 / 100), d64 (5020 / 100),
                     d64 (5025 / 100), PInf]"

definition binBoundaryF60 :: "double list" where
  "binBoundaryF60 = [d64 (5975 / 100), d64 (5980 / 100), d64 (5985 / 100), d64 (5990 / 100),
                     d64 (5995 / 100), d64 60,
                     d64 (6005 / 100), d64 (6010 / 100), d64 (6015 / 100), d64 (6020 / 100),
                     d64 (6025 / 100), PInf]"

definition binBoundaryF :: "double list" where
  "binBoundaryF = (if EXPECTED_FREQUENCY = 50 then binBoundaryF50 else binBoundaryF60)"

definition boundary_tables :: "double list list" where
  "boundary_tables = [binBoundaryV110, binBoundaryV230, binBoundaryI, binBoundaryP,
                      binBoundaryQ, binBoundaryPF, binBoundaryF50, binBoundaryF60]"

section \<open>Measurements, histograms and summaries\<close>

record Phase =
  vrms :: double
  irms :: double
  powerActive :: double
  powerReactive :: double
  powerFactor :: double

record Sample =
  p1 :: Phase
  p2 :: Phase
  p3 :: Phase
  frequency :: double

text \<open>\<^verbatim>\<open>Phase::reset\<close> and the constructor \<^verbatim>\<open>Sample()\<close>: every value is 0.0.\<close>

definition Phase_reset :: Phase where
  "Phase_reset = \<lparr>vrms = Fin 0, irms = Fin 0, powerActive = Fin 0, powerReactive = Fin 0,
                  powerFactor = Fin 0\<rparr>"

definition Sample_init :: Sample where
  "Sample_init = \<lparr>p1 = Phase_reset, p2 = Phase_reset, p3 = Phase_reset, frequency = Fin 0\<rparr>"

text \<open>\<^verbatim>\<open>uint32_t bin[HISTOGRAM_BINS]\<close>: a list of twelve 32-bit counters.\<close>

record Histogram =
  bin :: "u32 list"

definition Histogram_reset :: Histogram where
  "Histogram_reset = \<lparr>bin = replicate HISTOGRAM_BINS 0\<rparr>"

record Summary =
  histogram :: Histogram
  avg :: double
  minv :: double
  maxv :: double

definition Summary_reset :: Summary where
  "Summary_reset = \<lparr>histogram = Histogram_reset, avg = Fin 0, minv = NaN, maxv = NaN\<rparr>"

record PhaseSummary =
  vrms :: Summary
  irms :: Summary
  powerActive :: Summary
  powerReactive :: Summary
  powerFactor :: Summary

record SampleSummary =
  p1 :: PhaseSummary
  p2 :: PhaseSummary
  p3 :: PhaseSummary
  frequency :: Summary
  count :: u32
  intervalMin :: int
  intervalMax :: int
  tsStart :: int
  tsEnd :: int

section \<open>The accumulator of one quantity\<close>

text \<open>
  \<^verbatim>\<open>Report::Accumulator\<close>. \<open>binBoundaryPtr\<close> is \<open>None\<close> for the null pointer of the
  base class; the derived classes set it, together with \<open>decimalPlaces\<close>.
\<close>

record Accumulator =
  histogram :: Histogram
  totalv :: double
  minv :: double
  maxv :: double
  binBoundaryPtr :: "double list option"
  decimalPlaces :: int

definition Accumulator_init :: Accumulator where
  "Accumulator_init = \<lparr>histogram = Histogram_reset, totalv = Fin 0, minv = NaN, maxv = NaN,
                        binBoundaryPtr = None, decimalPlaces = 0\<rparr>"

definition Accumulator_reset :: "Accumulator \<Rightarrow> Accumulator" where
  "Accumulator_reset a =
     a\<lparr>Accumulator.histogram := Histogram_reset, totalv := Fin 0,
       Accumulator.minv := NaN, Accumulator.maxv := NaN\<rparr>"

definition AccumulatorVrms :: Accumulator where
  "AccumulatorVrms = Accumulator_init\<lparr>binBoundaryPtr := Some binBoundaryV, decimalPlaces := 1\<rparr>"

definition AccumulatorIrms :: Accumulator where
  "AccumulatorIrms = Accumulator_init\<lparr>binBoundaryPtr := Some binBoundaryI, decimalPlaces := 2\<rparr>"

definition AccumulatorPowerActive :: Accumulator where
  "AccumulatorPowerActive =
     Accumulator_init\<lparr>binBoundaryPtr := Some binBoundaryP, decimalPlaces := 1\<rparr>"

definition AccumulatorPowerReactive :: Accumulator where
  "AccumulatorPowerReactive =
     Accumulator_init\<lparr>binBoundaryPtr := Some binBoundaryQ, decimalPlaces := 1\<rparr>"

definition AccumulatorPowerFactor :: Accumulator where
  "AccumulatorPowerFactor =
     Accumulator_init\<lparr>binBoundaryPtr := Some binBoundaryPF, decimalPlaces := 2\<rparr>"

definition AccumulatorFrequency :: Accumulator where
  "AccumulatorFrequency =
     Accumulator_init\<lparr>binBoundaryPtr := Some binBoundaryF, decimalPlaces := 1\<rparr>"

text \<open>
  The scan of \<^verbatim>\<open>accumulate\<close>:
  \<^verbatim>\<open>for (bin = 0; bin < HISTOGRAM_BINS; bin++) { if (val < binBoundaryPtr[bin]) break; }\<close>
  The result is the value of \<^verbatim>\<open>bin\<close> after the loop.
\<close>

function scan_bins :: "double \<Rightarrow> double list \<Rightarrow> nat \<Rightarrow> nat" where
  "scan_bins val bs b =
     (if b < HISTOGRAM_BINS then (if dlt val (bs ! b) then b else scan_bins val bs (b + 1))
      else b)"
  by pat_completeness auto
termination
  by (relation "measure (\<lambda>(val, bs, b). HISTOGRAM_BINS - b)") auto

declare scan_bins.simps [simp del]

text \<open>\<^verbatim>\<open>Report::Accumulator::accumulate\<close>: the result and the accumulator after the call.\<close>

definition Accumulator_accumulate ::
  "bool \<Rightarrow> Accumulator \<Rightarrow> double \<Rightarrow> (bool \<times> Accumulator) option" where
  "Accumulator_accumulate ndebug a val =
     (case binBoundaryPtr a of
        None \<Rightarrow> assert_c ndebug False (Some (False, a))
      | Some bs \<Rightarrow>
          let b = scan_bins val bs 0 in
          if b < HISTOGRAM_BINS then
            let h = bin (Accumulator.histogram a);
                a1 = a\<lparr>Accumulator.histogram := \<lparr>bin = h[b := h ! b + 1]\<rparr>\<rparr>;
                a2 = a1\<lparr>totalv := dadd (totalv a1) val\<rparr>;
                a3 = (if dlt val (Accumulator.minv a2) \<or> isnan (Accumulator.minv a2)
                      then a2\<lparr>Accumulator.minv := val\<rparr> else a2);
                a4 = (if dgt val (Accumulator.maxv a3) \<or> isnan (Accumulator.maxv a3)
                      then a3\<lparr>Accumulator.maxv := val\<rparr> else a3)
            in Some (True, a4)
          else Some (False, a))"

text \<open>
  \<^verbatim>\<open>Report::Accumulator::summarise\<close>. The test \<^verbatim>\<open>count == 0 || memcpy(...) == NULL\<close> copies
  the twelve bins only when the count is not zero, and \<^verbatim>\<open>memcpy\<close> returns its
  destination, which is not null.
\<close>

definition Accumulator_summarise ::
  "bool \<Rightarrow> Accumulator \<Rightarrow> Summary \<Rightarrow> u32 \<Rightarrow> (bool \<times> Summary) option" where
  "Accumulator_summarise ndebug a summary cnt =
     (if cnt = 0 then assert_c ndebug False (Some (False, summary))
      else
        let s1 = summary\<lparr>Summary.histogram := Accumulator.histogram a\<rparr>;
            s2 = s1\<lparr>avg := round_dp (ddiv (totalv a) (double_of_u32 cnt)) (decimalPlaces a)\<rparr>;
            s3 = s2\<lparr>Summary.minv := round_dp (Accumulator.minv a) (decimalPlaces a)\<rparr>;
            s4 = s3\<lparr>Summary.maxv := round_dp (Accumulator.maxv a) (decimalPlaces a)\<rparr>
        in Some (True, s4))"

section \<open>The accumulators of a phase and of a sample\<close>

record PhaseAccumulator =
  vrms :: Accumulator
  irms :: Accumulator
  powerActive :: Accumulator
  powerReactive :: Accumulator
  powerFactor :: Accumulator

definition PhaseAccumulator_init :: PhaseAccumulator where
  "PhaseAccumulator_init =
     \<lparr>vrms = AccumulatorVrms, irms = AccumulatorIrms, powerActive = AccumulatorPowerActive,
      powerReactive = AccumulatorPowerReactive, powerFactor = AccumulatorPowerFactor\<rparr>"

definition PhaseAccumulator_reset :: "PhaseAccumulator \<Rightarrow> PhaseAccumulator" where
  "PhaseAccumulator_reset pa =
     \<lparr>vrms = Accumulator_reset (PhaseAccumulator.vrms pa),
      irms = Accumulator_reset (PhaseAccumulator.irms pa),
      powerActive = Accumulator_reset (PhaseAccumulator.powerActive pa),
      powerReactive = Accumulator_reset (PhaseAccumulator.powerReactive pa),
      powerFactor = Accumulator_reset (PhaseAccumulator.powerFactor pa)\<rparr>"

text \<open>\<^verbatim>\<open>Report::PhaseAccumulator::accumulate\<close>: five calls, one after the other, then the
  test of the five results.\<close>

definition PhaseAccumulator_accumulate ::
  "bool \<Rightarrow> PhaseAccumulator \<Rightarrow> Phase \<Rightarrow> (bool \<times> PhaseAccumulator) option" where
  "PhaseAccumulator_accumulate ndebug pa phase =
     (case Accumulator_accumulate ndebug (PhaseAccumulator.vrms pa) (Phase.vrms phase) of
        None \<Rightarrow> None
      | Some (successV, v) \<Rightarrow>
     (case Accumulator_accumulate ndebug (PhaseAccumulator.irms pa) (Phase.irms phase) of
        None \<Rightarrow> None
      | Some (successI, i) \<Rightarrow>
     (case Accumulator_accumulate ndebug (PhaseAccumulator.powerActive pa)
             (Phase.powerActive phase) of
        None \<Rightarrow> None
      | Some (successP, p) \<Rightarrow>
     (case Accumulator_accumulate ndebug (PhaseAccumulator.powerReactive pa)
             (Phase.powerReactive phase) of
        None \<Rightarrow> None
      | Some (successQ, q) \<Rightarrow>
     (case Accumulator_accumulate ndebug (PhaseAccumulator.powerFactor pa)
             (Phase.powerFactor phase) of
        None \<Rightarrow> None
      | Some (successF, f) \<Rightarrow>
          let pa' = \<lparr>vrms = v, irms = i, powerActive = p, powerReactive = q, powerFactor = f\<rparr>
          in if successV \<and> successI \<and> successP \<and> successQ \<and> successF then Some (True, pa')
             else assert_c ndebug False (Some (False, pa')))))))"

text \<open>\<^verbatim>\<open>Report::PhaseAccumulator::summarise\<close>.\<close>

definition PhaseAccumulator_summarise ::
  "bool \<Rightarrow> PhaseAccumulator \<Rightarrow> PhaseSummary \<Rightarrow> u32 \<Rightarrow> (bool \<times> PhaseSummary) option" where
  "PhaseAccumulator_summarise ndebug pa phaseSummary cnt =
     (case Accumulator_summarise ndebug (PhaseAccumulator.vrms pa)
             (PhaseSummary.vrms phaseSummary) cnt of
        None \<Rightarrow> None
      | Some (successV, v) \<Rightarrow>
     (case Accumulator_summarise ndebug (PhaseAccumulator.irms pa)
             (PhaseSummary.irms phaseSummary) cnt of
        None \<Rightarrow> None
      | Some (successI, i) \<Rightarrow>
     (case Accumulator_summarise ndebug (PhaseAccumulator.powerActive pa)
             (PhaseSummary.powerActive phaseSummary) cnt of
        None \<Rightarrow> None
      | Some (successP, p) \<Rightarrow>
     (case Accumulator_summarise ndebug (PhaseAccumulator.powerReactive pa)
             (PhaseSummary.powerReactive phaseSummary) cnt of
        None \<Rightarrow> None
      | Some (successQ, q) \<Rightarrow>
     (case Accumulator_summarise ndebug (PhaseAccumulator.powerFactor pa)
             (PhaseSummary.powerFactor phaseSummary) cnt of
        None \<Rightarrow> None
      | Some (successF, f) \<Rightarrow>
          let ps' = \<lparr>PhaseSummary.vrms = v, PhaseSummary.irms = i, PhaseSummary.powerActive = p,
                      PhaseSummary.powerReactive = q, PhaseSummary.powerFactor = f\<rparr>
          in if successV \<and> successI \<and> successP \<and> successQ \<and> successF then Some (True, ps')
             else assert_c ndebug False (Some (False, ps')))))))"

text \<open>
  \<^verbatim>\<open>Report::SampleAccumulator\<close>. Time points and durations are integers;
  \<^verbatim>\<open>system_clock::now()\<close> is the argument \<open>now\<close> of the functions that read the clock.
\<close>

record SampleAccumulator =
  p1 :: PhaseAccumulator
  p2 :: PhaseAccumulator
  p3 :: PhaseAccumulator
  frequency :: Accumulator
  count :: u32
  intervalMin :: int
  intervalMax :: int
  tsLast :: int
  tsStart :: int
  tsEnd :: int

definition INT32_MAX :: int where
  "INT32_MAX = 2147483647"

definition SampleAccumulator_reset :: "int \<Rightarrow> SampleAccumulator \<Rightarrow> SampleAccumulator" where
  "SampleAccumulator_reset now sa =
     \<lparr>p1 = PhaseAccumulator_reset (SampleAccumulator.p1 sa),
      p2 = PhaseAccumulator_reset (SampleAccumulator.p2 sa),
      p3 = PhaseAccumulator_reset (SampleAccumulator.p3 sa),
      frequency = Accumulator_reset (SampleAccumulator.frequency sa),
      count = 0, intervalMin = INT32_MAX, intervalMax = 0,
      tsLast = now, tsStart = now, tsEnd = now\<rparr>"

text \<open>\<^verbatim>\<open>Report::SampleAccumulator::accumulate\<close>.\<close>

definition SampleAccumulator_accumulate ::
  "bool \<Rightarrow> int \<Rightarrow> SampleAccumulator \<Rightarrow> Sample \<Rightarrow> (bool \<times> SampleAccumulator) option" where
  "SampleAccumulator_accumulate ndebug now sa sample =
     (case PhaseAccumulator_accumulate ndebug (SampleAccumulator.p1 sa) (Sample.p1 sample) of
        None \<Rightarrow> None
      | Some (successP1, a1) \<Rightarrow>
     (case PhaseAccumulator_accumulate ndebug (SampleAccumulator.p2 sa) (Sample.p2 sample) of
        None \<Rightarrow> None
      | Some (successP2, a2) \<Rightarrow>
     (case PhaseAccumulator_accumulate ndebug (SampleAccumulator.p3 sa) (Sample.p3 sample) of
        None \<Rightarrow> None
      | Some (successP3, a3) \<Rightarrow>
     (case Accumulator_accumulate ndebug (SampleAccumulator.frequency sa)
             (Sample.frequency sample) of
        None \<Rightarrow> None
      | Some (successF, f) \<Rightarrow>
          let sa' = sa\<lparr>SampleAccumulator.p1 := a1, SampleAccumulator.p2 := a2,
                       SampleAccumulator.p3 := a3, SampleAccumulator.frequency := f\<rparr>
          in if successP1 \<and> successP2 \<and> successP3 \<and> successF
             then Some (True, sa'\<lparr>SampleAccumulator.count := SampleAccumulator.count sa' + 1,
                                   SampleAccumulator.tsEnd := now\<rparr>)
             else assert_c ndebug False (Some (False, sa'))))))"

text \<open>\<^verbatim>\<open>Report::SampleAccumulator::summarise\<close>: the count and the two time stamps are
  stored whatever the four results are.\<close>

definition SampleAccumulator_summarise ::
  "bool \<Rightarrow> SampleAccumulator \<Rightarrow> SampleSummary \<Rightarrow> (bool \<times> SampleSummary) option" where
  "SampleAccumulator_summarise ndebug sa sampleSummary =
     (case PhaseAccumulator_summarise ndebug (SampleAccumulator.p1 sa)
             (SampleSummary.p1 sampleSummary) (SampleAccumulator.count sa) of
        None \<Rightarrow> None
      | Some (successP1, s1) \<Rightarrow>
     (case PhaseAccumulator_summarise ndebug (SampleAccumulator.p2 sa)
             (SampleSummary.p2 sampleSummary) (SampleAccumulator.count sa) of
        None \<Rightarrow> None
      | Some (successP2, s2) \<Rightarrow>
     (case PhaseAccumulator_summarise ndebug (SampleAccumulator.p3 sa)
             (SampleSummary.p3 sampleSummary) (SampleAccumulator.count sa) of
        None \<Rightarrow> None
      | Some (successP3, s3) \<Rightarrow>
     (case Accumulator_summarise ndebug (SampleAccumulator.frequency sa)
             (SampleSummary.frequency sampleSummary) (SampleAccumulator.count sa) of
        None \<Rightarrow> None
      | Some (successF, f) \<Rightarrow>
          let ss' = sampleSummary\<lparr>SampleSummary.p1 := s1, SampleSummary.p2 := s2,
                      SampleSummary.p3 := s3, SampleSummary.frequency := f,
                      SampleSummary.count := SampleAccumulator.count sa,
                      SampleSummary.tsStart := SampleAccumulator.tsStart sa,
                      SampleSummary.tsEnd := SampleAccumulator.tsEnd sa\<rparr>
          in if successP1 \<and> successP2 \<and> successP3 \<and> successF then Some (True, ss')
             else assert_c ndebug False (Some (False, ss'))))))"

section \<open>The report\<close>

record Report =
  acc :: SampleAccumulator

text \<open>The constructor \<^verbatim>\<open>Report() { reset(); }\<close>: the members that \<^verbatim>\<open>reset\<close> does not
  read are written by it before any use.\<close>

definition Report_reset :: "int \<Rightarrow> Report \<Rightarrow> Report" where
  "Report_reset now r = r\<lparr>acc := SampleAccumulator_reset now (acc r)\<rparr>"

definition Report_init :: "int \<Rightarrow> Report" where
  "Report_init now =
     Report_reset now
       \<lparr>acc = \<lparr>p1 = PhaseAccumulator_init, p2 = PhaseAccumulator_init,
                p3 = PhaseAccumulator_init, frequency = AccumulatorFrequency,
                count = 0, intervalMin = 0, intervalMax = 0,
                tsLast = 0, tsStart = 0, tsEnd = 0\<rparr>\<rparr>"

definition Report_accumulate ::
  "bool \<Rightarrow> int \<Rightarrow> Report \<Rightarrow> Sample \<Rightarrow> (bool \<times> Report) option" where
  "Report_accumulate ndebug now r sample =
     (case SampleAccumulator_accumulate ndebug now (acc r) sample of
        None \<Rightarrow> None
      | Some (ok, sa) \<Rightarrow> Some (ok, r\<lparr>acc := sa\<rparr>))"

definition Report_summarise ::
  "bool \<Rightarrow> Report \<Rightarrow> SampleSummary \<Rightarrow> (bool \<times> SampleSummary) option" where
  "Report_summarise ndebug r sampleSummary =
     SampleAccumulator_summarise ndebug (acc r) sampleSummary"

definition Report_count :: "Report \<Rightarrow> u32" where
  "Report_count r = SampleAccumulator.count (acc r)"

section \<open>Sequences of calls\<close>

text \<open>
  A run of \<^verbatim>\<open>accumulate\<close> calls on one accumulator, one call for each value of the
  list: the values whose call returned true, in order, and the accumulator at the end.
\<close>

fun accumulate_all ::
  "bool \<Rightarrow> Accumulator \<Rightarrow> double list \<Rightarrow> (double list \<times> Accumulator) option" where
  "accumulate_all ndebug a [] = Some ([], a)"
| "accumulate_all ndebug a (v # vs) =
     (case Accumulator_accumulate ndebug a v of
        None \<Rightarrow> None
      | Some (ok, a') \<Rightarrow>
          (case accumulate_all ndebug a' vs of
             None \<Rightarrow> None
           | Some (acc_vs, a'') \<Rightarrow> Some ((if ok then [v] else []) @ acc_vs, a'')))"

text \<open>The comparison \<^verbatim>\<open>a <= b\<close>.\<close>

definition dle :: "double \<Rightarrow> double \<Rightarrow> bool" where
  "dle a b = (dlt a b \<or> (a = b \<and> \<not> isnan a))"

text \<open>
  The extremes of a list of values: \<open>minmax_of a vs\<close> says that the minimum and the
  maximum held by the accumulator \<open>a\<close> are the least and the greatest value of \<open>vs\<close>.
\<close>

definition minmax_of :: "Accumulator \<Rightarrow> double list \<Rightarrow> bool" where
  "minmax_of a seen =
     (Accumulator.minv a \<in> set seen \<and> (\<forall>x\<in>set seen. dle (Accumulator.minv a) x)
      \<and> Accumulator.maxv a \<in> set seen \<and> (\<forall>x\<in>set seen. dle x (Accumulator.maxv a)))"

text \<open>
  The values that bucket selection accepts, whatever the table: every double but
  not-a-number and plus infinity. A phase or a sample is in range when all its values
  are.
\<close>

definition in_range :: "double \<Rightarrow> bool" where
  "in_range v = (\<not> isnan v \<and> v \<noteq> PInf)"

definition Phase_in_range :: "Phase \<Rightarrow> bool" where
  "Phase_in_range ph =
     (in_range (Phase.vrms ph) \<and> in_range (Phase.irms ph) \<and> in_range (Phase.powerActive ph)
      \<and> in_range (Phase.powerReactive ph) \<and> in_range (Phase.powerFactor ph))"

definition Sample_in_range :: "Sample \<Rightarrow> bool" where
  "Sample_in_range s =
     (Phase_in_range (Sample.p1 s) \<and> Phase_in_range (Sample.p2 s) \<and> Phase_in_range (Sample.p3 s)
      \<and> in_range (Sample.frequency s))"

text \<open>An accumulator of one of the derived classes points to one of the tables.\<close>

definition has_table :: "Accumulator \<Rightarrow> bool" where
  "has_table a = (\<exists>bs\<in>set boundary_tables. binBoundaryPtr a = Some bs)"

definition phase_has_tables :: "PhaseAccumulator \<Rightarrow> bool" where
  "phase_has_tables pa =
     (has_table (PhaseAccumulator.vrms pa) \<and> has_table (PhaseAccumulator.irms pa)
      \<and> has_table (PhaseAccumulator.powerActive pa)
      \<and> has_table (PhaseAccumulator.powerReactive pa)
      \<and> has_table (PhaseAccumulator.powerFactor pa))"

definition sample_has_tables :: "SampleAccumulator \<Rightarrow> bool" where
  "sample_has_tables sa =
     (phase_has_tables (SampleAccumulator.p1 sa) \<and> phase_has_tables (SampleAccumulator.p2 sa)
      \<and> phase_has_tables (SampleAccumulator.p3 sa)
      \<and> has_table (SampleAccumulator.frequency sa))"

section \<open>Evaluation of the rounding\<close>

lemmas d64_eval = d64_def rne_def pow2_def Let_def expo.simps

lemma pow10_1: "pow10 1 = Fin 10"
  by (simp add: pow10_def d64_eval)

lemma pow10_2: "pow10 2 = Fin 100"
  by (simp add: pow10_def d64_eval)

section \<open>The rounding is to nearest\<close>

text \<open>
  \<open>expo\<close> is the binary exponent, \<open>rne\<close> is within one half of its argument, and a
  finite result of \<open>d64\<close> is within half a unit in the last place of the real it rounds.
\<close>

lemma pow2_pos: "0 < pow2 e"
  by (simp add: pow2_def)

lemma pow2_plus1: "pow2 (e + 1) = 2 * pow2 e"
proof (cases "0 \<le> e")
  case True
  then have "nat (e + 1) = Suc (nat e)" by simp
  then show ?thesis using True by (simp add: pow2_def)
next
  case False
  show ?thesis
  proof (cases "e = - 1")
    case True
    then show ?thesis by (simp add: pow2_def)
  next
    case False
    with \<open>\<not> 0 \<le> e\<close> have "nat (- e) = Suc (nat (- (e + 1)))" by simp
    then show ?thesis using False \<open>\<not> 0 \<le> e\<close> by (simp add: pow2_def)
  qed
qed

lemma pow2_minus1: "pow2 (e - 1) = pow2 e / 2"
  using pow2_plus1 [of "e - 1"] by simp

lemma expo_bounds: "0 < x \<Longrightarrow> pow2 (expo x) \<le> x \<and> x < pow2 (expo x + 1)"
proof (induction x rule: expo.induct)
  case (1 x)
  show ?case
  proof (cases "2 \<le> x")
    case True
    then have e: "expo x = expo (x / 2) + 1" by (subst expo.simps) simp
    have "pow2 (expo (x / 2)) \<le> x / 2 \<and> x / 2 < pow2 (expo (x / 2) + 1)"
      using "1.IH"(1) [OF True] "1.prems" by simp
    moreover have "pow2 (expo (x / 2) + 1 + 1) = 2 * pow2 (expo (x / 2) + 1)"
      by (rule pow2_plus1)
    ultimately show ?thesis unfolding e by (simp add: pow2_plus1)
  next
    case False
    show ?thesis
    proof (cases "x < 1")
      case True
      then have e: "expo x = expo (2 * x) - 1"
        using False "1.prems" by (subst expo.simps) simp
      have "pow2 (expo (2 * x)) \<le> 2 * x \<and> 2 * x < pow2 (expo (2 * x) + 1)"
        using "1.IH"(2) [OF False] True "1.prems" by simp
      then show ?thesis unfolding e by (simp add: pow2_plus1 pow2_minus1)
    next
      case False
      then have e: "expo x = 0" using \<open>\<not> 2 \<le> x\<close> by (subst expo.simps) simp
      show ?thesis unfolding e using False \<open>\<not> 2 \<le> x\<close> by (simp add: pow2_def)
    qed
  qed
qed

lemma rne_nearest: "\<bar>real_of_int (rne x) - x\<bar> \<le> 1 / 2"
  unfolding rne_def Let_def by (auto split: if_splits)

lemma d64_nearest:
  assumes "d64 x = Fin y" "x \<noteq> 0"
  shows "\<bar>y - x\<bar> \<le> pow2 (max (expo \<bar>x\<bar>) (- 1022) - 53)"
proof -
  define q where "q = max (expo \<bar>x\<bar>) (- 1022) - 52"
  have y: "y = of_int (rne (x / pow2 q)) * pow2 q"
    using assms by (auto simp: d64_def Let_def q_def split: if_splits)
  have "y - x = (of_int (rne (x / pow2 q)) - x / pow2 q) * pow2 q"
    using pow2_pos [of q] by (simp add: y field_simps)
  then have "\<bar>y - x\<bar> = \<bar>of_int (rne (x / pow2 q)) - x / pow2 q\<bar> * pow2 q"
    using pow2_pos [of q] by (simp add: abs_mult)
  also have "\<dots> \<le> 1 / 2 * pow2 q"
    using rne_nearest [of "x / pow2 q"] pow2_pos [of q] by (simp add: mult_right_mono)
  also have "\<dots> = pow2 (q - 1)" by (simp add: pow2_minus1)
  finally show ?thesis by (simp add: q_def)
qed

section \<open>Bucket selection\<close>

lemma d64_not_NaN: "d64 x \<noteq> NaN"
  by (simp add: d64_def Let_def)

lemma NaN_not_d64: "NaN \<noteq> d64 x"
  using d64_not_NaN [of x] by simp

lemma boundary_tables_shape:
  assumes "bs \<in> set boundary_tables"
  shows "length bs = HISTOGRAM_BINS \<and> bs ! 11 = PInf \<and> NaN \<notin> set bs"
  using assms
  by (auto simp: boundary_tables_def HISTOGRAM_BINS_def binBoundaryV110_def binBoundaryV230_def
      binBoundaryI_def binBoundaryP_def binBoundaryQ_def binBoundaryPF_def binBoundaryF50_def
      binBoundaryF60_def NaN_not_d64)

lemma dlt_PInf: "dlt v PInf \<longleftrightarrow> v \<noteq> NaN \<and> v \<noteq> PInf"
  by (cases v) simp_all

lemma dlt_NaN_left [simp]: "\<not> dlt NaN b"
  by simp

lemma dlt_PInf_left [simp]: "\<not> dlt PInf b"
  by (cases b) simp_all

lemma dlt_NaN_right [simp]: "\<not> dlt a NaN"
  by (cases a) simp_all

lemma scan_bins_first:
  "b \<le> HISTOGRAM_BINS \<Longrightarrow>
   b \<le> scan_bins v bs b \<and> scan_bins v bs b \<le> HISTOGRAM_BINS
   \<and> (\<forall>j. b \<le> j \<and> j < scan_bins v bs b \<longrightarrow> \<not> dlt v (bs ! j))
   \<and> (scan_bins v bs b < HISTOGRAM_BINS \<longrightarrow> dlt v (bs ! scan_bins v bs b))"
proof (induction v bs b rule: scan_bins.induct)
  case (1 val bs b)
  show ?case
  proof (cases "b < HISTOGRAM_BINS \<and> \<not> dlt val (bs ! b)")
    case True
    then have eq: "scan_bins val bs b = scan_bins val bs (b + 1)"
      by (subst scan_bins.simps) simp
    have ih: "b + 1 \<le> scan_bins val bs (b + 1) \<and> scan_bins val bs (b + 1) \<le> HISTOGRAM_BINS
      \<and> (\<forall>j. b + 1 \<le> j \<and> j < scan_bins val bs (b + 1) \<longrightarrow> \<not> dlt val (bs ! j))
      \<and> (scan_bins val bs (b + 1) < HISTOGRAM_BINS \<longrightarrow> dlt val (bs ! scan_bins val bs (b + 1)))"
      using "1.IH" True by simp
    have "\<And>j. b \<le> j \<Longrightarrow> j < scan_bins val bs (b + 1) \<Longrightarrow> \<not> dlt val (bs ! j)"
    proof -
      fix j assume j: "b \<le> j" "j < scan_bins val bs (b + 1)"
      show "\<not> dlt val (bs ! j)"
      proof (cases "j = b")
        case True
        then show ?thesis using \<open>b < HISTOGRAM_BINS \<and> \<not> dlt val (bs ! b)\<close> by simp
      next
        case False
        then have "b + 1 \<le> j" using j by simp
        then show ?thesis using ih j by blast
      qed
    qed
    then show ?thesis using ih eq by auto
  next
    case False
    then have eq: "scan_bins val bs b = b"
      by (subst scan_bins.simps) auto
    show ?thesis using False "1.prems" eq by auto
  qed
qed

lemma scan_bins_reject:
  assumes "bs \<in> set boundary_tables" "v = NaN \<or> v = PInf"
  shows "scan_bins v bs 0 = HISTOGRAM_BINS"
proof -
  have f: "scan_bins v bs 0 \<le> HISTOGRAM_BINS
    \<and> (scan_bins v bs 0 < HISTOGRAM_BINS \<longrightarrow> dlt v (bs ! scan_bins v bs 0))"
    using scan_bins_first [of 0 v bs] by simp
  have "\<not> dlt v (bs ! scan_bins v bs 0)" using assms(2) by auto
  then show ?thesis using f by auto
qed

lemma scan_bins_accept:
  assumes "bs \<in> set boundary_tables" "v \<noteq> NaN" "v \<noteq> PInf"
  shows "scan_bins v bs 0 < HISTOGRAM_BINS"
proof (rule ccontr)
  assume n: "\<not> scan_bins v bs 0 < HISTOGRAM_BINS"
  have f: "scan_bins v bs 0 \<le> HISTOGRAM_BINS
    \<and> (\<forall>j. 0 \<le> j \<and> j < scan_bins v bs 0 \<longrightarrow> \<not> dlt v (bs ! j))"
    using scan_bins_first [of 0 v bs] by simp
  then have "scan_bins v bs 0 = 12" using n by (simp add: HISTOGRAM_BINS_def)
  then have "\<not> dlt v (bs ! 11)" using f by simp
  moreover have "bs ! 11 = PInf" using boundary_tables_shape [OF assms(1)] by simp
  ultimately show False using assms(2,3) by (simp add: dlt_PInf)
qed

lemma accumulate_failure:
  assumes "binBoundaryPtr a = Some bs" "scan_bins v bs 0 = HISTOGRAM_BINS"
  shows "Accumulator_accumulate ndebug a v = Some (False, a)"
  using assms by (simp add: Accumulator_accumulate_def)

lemma accumulate_success:
  assumes "binBoundaryPtr a = Some bs" "scan_bins v bs 0 < HISTOGRAM_BINS"
  shows "Accumulator_accumulate ndebug a v =
    Some (True, a\<lparr>Accumulator.histogram :=
                     \<lparr>bin = (bin (Accumulator.histogram a))
                        [scan_bins v bs 0 := bin (Accumulator.histogram a) ! scan_bins v bs 0 + 1]\<rparr>,
                   totalv := dadd (totalv a) v,
                   Accumulator.minv :=
                     (if dlt v (Accumulator.minv a) \<or> isnan (Accumulator.minv a) then v
                      else Accumulator.minv a),
                   Accumulator.maxv :=
                     (if dgt v (Accumulator.maxv a) \<or> isnan (Accumulator.maxv a) then v
                      else Accumulator.maxv a)\<rparr>)"
  using assms by (simp add: Accumulator_accumulate_def Let_def)

text \<open>
  C1. For an accumulator that points to one of the boundary tables and any double \<open>v\<close>:
  a boundary above \<open>v\<close> exists exactly when \<open>v\<close> is neither not-a-number nor plus
  infinity; then \<^verbatim>\<open>accumulate\<close> returns true and has incremented the counter of the
  first bucket whose boundary is above \<open>v\<close>; otherwise it returns false and the
  accumulator (total, minimum, maximum, histogram) is as before the call.
\<close>

theorem accumulate_selects_first_bucket:
  assumes "binBoundaryPtr a = Some bs" and "bs \<in> set boundary_tables"
  shows "((\<exists>i<HISTOGRAM_BINS. dlt v (bs ! i)) \<longleftrightarrow> v \<noteq> NaN \<and> v \<noteq> PInf)
    \<and> (v \<noteq> NaN \<and> v \<noteq> PInf \<longrightarrow>
         (\<exists>i a'. i < HISTOGRAM_BINS \<and> dlt v (bs ! i) \<and> (\<forall>j<i. \<not> dlt v (bs ! j))
            \<and> Accumulator_accumulate ndebug a v = Some (True, a')
            \<and> bin (Accumulator.histogram a') =
                (bin (Accumulator.histogram a))[i := bin (Accumulator.histogram a) ! i + 1]))
    \<and> (v = NaN \<or> v = PInf \<longrightarrow> Accumulator_accumulate ndebug a v = Some (False, a))"
proof (intro conjI impI)
  show "(\<exists>i<HISTOGRAM_BINS. dlt v (bs ! i)) \<longleftrightarrow> v \<noteq> NaN \<and> v \<noteq> PInf"
  proof
    assume "\<exists>i<HISTOGRAM_BINS. dlt v (bs ! i)"
    then show "v \<noteq> NaN \<and> v \<noteq> PInf" by auto
  next
    assume "v \<noteq> NaN \<and> v \<noteq> PInf"
    then have "dlt v (bs ! 11)"
      using boundary_tables_shape [OF assms(2)] by (simp add: dlt_PInf)
    moreover have "(11::nat) < HISTOGRAM_BINS" by (simp add: HISTOGRAM_BINS_def)
    ultimately show "\<exists>i<HISTOGRAM_BINS. dlt v (bs ! i)" by blast
  qed
next
  assume v: "v \<noteq> NaN \<and> v \<noteq> PInf"
  let ?i = "scan_bins v bs 0"
  have lt: "?i < HISTOGRAM_BINS" using scan_bins_accept [OF assms(2)] v by simp
  have f: "(\<forall>j. 0 \<le> j \<and> j < ?i \<longrightarrow> \<not> dlt v (bs ! j)) \<and> dlt v (bs ! ?i)"
    using scan_bins_first [of 0 v bs] lt by simp
  show "\<exists>i a'. i < HISTOGRAM_BINS \<and> dlt v (bs ! i) \<and> (\<forall>j<i. \<not> dlt v (bs ! j))
            \<and> Accumulator_accumulate ndebug a v = Some (True, a')
            \<and> bin (Accumulator.histogram a') =
                (bin (Accumulator.histogram a))[i := bin (Accumulator.histogram a) ! i + 1]"
    using lt f accumulate_success [OF assms(1) lt, of ndebug] by auto
next
  assume "v = NaN \<or> v = PInf"
  then show "Accumulator_accumulate ndebug a v = Some (False, a)"
    using accumulate_failure [OF assms(1) scan_bins_reject [OF assms(2)]] by simp
qed

lemma binBoundaryV_in_tables: "binBoundaryV \<in> set boundary_tables"
  by (simp add: binBoundaryV_def boundary_tables_def EXPECTED_VOLTAGE_def)

theorem accumulate_selects_first_bucket_witness:
  "binBoundaryPtr AccumulatorVrms = Some binBoundaryV \<and> binBoundaryV \<in> set boundary_tables
   \<and> Accumulator_accumulate True AccumulatorVrms NaN = Some (False, AccumulatorVrms)
   \<and> (\<exists>a'. Accumulator_accumulate True AccumulatorVrms (Fin 230) = Some (True, a'))"
proof -
  have p: "binBoundaryPtr AccumulatorVrms = Some binBoundaryV"
    by (simp add: AccumulatorVrms_def)
  show ?thesis
    using p binBoundaryV_in_tables
      accumulate_selects_first_bucket [OF p binBoundaryV_in_tables, of NaN True]
      accumulate_selects_first_bucket [OF p binBoundaryV_in_tables, of "Fin 230" True]
    by auto
qed

section \<open>The effect of one call\<close>

lemma accumulate_cases:
  assumes "binBoundaryPtr a = Some bs"
  shows "(scan_bins v bs 0 < HISTOGRAM_BINS \<and> dlt v (bs ! scan_bins v bs 0)
          \<and> Accumulator_accumulate nd a v =
            Some (True, a\<lparr>Accumulator.histogram :=
                     \<lparr>bin = (bin (Accumulator.histogram a))
                        [scan_bins v bs 0 := bin (Accumulator.histogram a) ! scan_bins v bs 0 + 1]\<rparr>,
                   totalv := dadd (totalv a) v,
                   Accumulator.minv :=
                     (if dlt v (Accumulator.minv a) \<or> isnan (Accumulator.minv a) then v
                      else Accumulator.minv a),
                   Accumulator.maxv :=
                     (if dgt v (Accumulator.maxv a) \<or> isnan (Accumulator.maxv a) then v
                      else Accumulator.maxv a)\<rparr>))
       \<or> (Accumulator_accumulate nd a v = Some (False, a))"
proof (cases "scan_bins v bs 0 < HISTOGRAM_BINS")
  case True
  then have "dlt v (bs ! scan_bins v bs 0)" using scan_bins_first [of 0 v bs] by simp
  then show ?thesis using True accumulate_success [OF assms True] by simp
next
  case False
  then have "scan_bins v bs 0 = HISTOGRAM_BINS" using scan_bins_first [of 0 v bs] by simp
  then show ?thesis using accumulate_failure [OF assms] by simp
qed

lemma accumulate_keeps_table:
  assumes "binBoundaryPtr a = Some bs" "Accumulator_accumulate nd a v = Some (ok, a')"
  shows "binBoundaryPtr a' = Some bs
     \<and> length (bin (Accumulator.histogram a')) = length (bin (Accumulator.histogram a))"
  using accumulate_cases [OF assms(1), of v nd] assms by auto

lemma accumulate_one_bucket:
  assumes "binBoundaryPtr a = Some bs" "Accumulator_accumulate nd a v = Some (ok, a')"
  shows "if ok then \<exists>i<HISTOGRAM_BINS. bin (Accumulator.histogram a') =
              (bin (Accumulator.histogram a))[i := bin (Accumulator.histogram a) ! i + 1]
         else a' = a"
  using accumulate_cases [OF assms(1), of v nd] assms(2) by auto

lemma accumulate_true_fields:
  assumes "binBoundaryPtr a = Some bs" "Accumulator_accumulate nd a v = Some (True, a')"
  shows "dlt v (bs ! scan_bins v bs 0)"
    and "Accumulator.minv a' =
      (if dlt v (Accumulator.minv a) \<or> isnan (Accumulator.minv a) then v
       else Accumulator.minv a)"
    and "Accumulator.maxv a' =
      (if dgt v (Accumulator.maxv a) \<or> isnan (Accumulator.maxv a) then v
       else Accumulator.maxv a)"
    and "totalv a' = dadd (totalv a) v"
    and "bin (Accumulator.histogram a') = (bin (Accumulator.histogram a))
           [scan_bins v bs 0 := bin (Accumulator.histogram a) ! scan_bins v bs 0 + 1]"
    and "scan_bins v bs 0 < HISTOGRAM_BINS"
proof -
  have lt: "scan_bins v bs 0 < HISTOGRAM_BINS"
  proof (rule ccontr)
    assume "\<not> scan_bins v bs 0 < HISTOGRAM_BINS"
    then have "scan_bins v bs 0 = HISTOGRAM_BINS" using scan_bins_first [of 0 v bs] by simp
    then show False using accumulate_failure [OF assms(1), of v nd] assms(2) by simp
  qed
  then show "scan_bins v bs 0 < HISTOGRAM_BINS" .
  show "dlt v (bs ! scan_bins v bs 0)" using lt scan_bins_first [of 0 v bs] by simp
  have e: "a' = a\<lparr>Accumulator.histogram :=
                     \<lparr>bin = (bin (Accumulator.histogram a))
                        [scan_bins v bs 0 := bin (Accumulator.histogram a) ! scan_bins v bs 0 + 1]\<rparr>,
                   totalv := dadd (totalv a) v,
                   Accumulator.minv :=
                     (if dlt v (Accumulator.minv a) \<or> isnan (Accumulator.minv a) then v
                      else Accumulator.minv a),
                   Accumulator.maxv :=
                     (if dgt v (Accumulator.maxv a) \<or> isnan (Accumulator.maxv a) then v
                      else Accumulator.maxv a)\<rparr>"
    using accumulate_success [OF assms(1) lt, of nd] assms(2) by simp
  show "Accumulator.minv a' =
      (if dlt v (Accumulator.minv a) \<or> isnan (Accumulator.minv a) then v
       else Accumulator.minv a)"
    by (subst e) simp
  show "Accumulator.maxv a' =
      (if dgt v (Accumulator.maxv a) \<or> isnan (Accumulator.maxv a) then v
       else Accumulator.maxv a)"
    by (subst e) simp
  show "totalv a' = dadd (totalv a) v"
    by (subst e) simp
  show "bin (Accumulator.histogram a') = (bin (Accumulator.histogram a))
           [scan_bins v bs 0 := bin (Accumulator.histogram a) ! scan_bins v bs 0 + 1]"
    by (subst e) simp
qed

lemma accumulate_ndebug_returns:
  "\<exists>ok a'. Accumulator_accumulate True a v = Some (ok, a')"
  by (auto simp: Accumulator_accumulate_def assert_c_def Let_def split: option.split)

lemma phase_accumulate_ndebug_returns:
  "\<exists>ok pa'. PhaseAccumulator_accumulate True pa ph = Some (ok, pa')"
proof -
  obtain sV aV where v: "Accumulator_accumulate True (PhaseAccumulator.vrms pa) (Phase.vrms ph) = Some (sV, aV)"
    using accumulate_ndebug_returns by blast
  obtain sI aI where i: "Accumulator_accumulate True (PhaseAccumulator.irms pa) (Phase.irms ph) = Some (sI, aI)"
    using accumulate_ndebug_returns by blast
  obtain sP aP where p: "Accumulator_accumulate True (PhaseAccumulator.powerActive pa) (Phase.powerActive ph) = Some (sP, aP)"
    using accumulate_ndebug_returns by blast
  obtain sQ aQ where q: "Accumulator_accumulate True (PhaseAccumulator.powerReactive pa) (Phase.powerReactive ph) = Some (sQ, aQ)"
    using accumulate_ndebug_returns by blast
  obtain sF aF where f: "Accumulator_accumulate True (PhaseAccumulator.powerFactor pa) (Phase.powerFactor ph) = Some (sF, aF)"
    using accumulate_ndebug_returns by blast
  show ?thesis
    by (auto simp: PhaseAccumulator_accumulate_def v i p q f assert_c_def Let_def)
qed

section \<open>The sum of the counters\<close>

lemma sum_unat_increment:
  fixes h :: "u32 list"
  assumes "i < length h" "sum_list (map unat h) + 1 < 2 ^ 32"
  shows "sum_list (map unat (h[i := h ! i + 1])) = sum_list (map unat h) + 1"
proof -
  have le: "unat (h ! i) \<le> sum_list (map unat h)"
    using assms(1) by (simp add: member_le_sum_list)
  then have "unat (h ! i) + 1 < 2 ^ 32" using assms(2) by simp
  then have u: "unat (h ! i + 1) = unat (h ! i) + 1"
    by (simp add: unat_word_ariths)
  have "sum_list ((map unat h)[i := unat (h ! i + 1)])
        = sum_list (map unat h) + unat (h ! i + 1) - (map unat h) ! i"
    using assms(1) by (simp add: sum_list_update)
  then show ?thesis using assms(1) u by (simp add: map_update)
qed

lemma accumulate_all_sum:
  assumes "binBoundaryPtr a = Some bs" "length (bin (Accumulator.histogram a)) = HISTOGRAM_BINS"
  shows "\<exists>acc_vs a'. accumulate_all nd a vs = Some (acc_vs, a')
     \<and> length acc_vs \<le> length vs
     \<and> (sum_list (map unat (bin (Accumulator.histogram a))) + length acc_vs < 2 ^ 32 \<longrightarrow>
          sum_list (map unat (bin (Accumulator.histogram a')))
          = sum_list (map unat (bin (Accumulator.histogram a))) + length acc_vs)"
  using assms
proof (induction vs arbitrary: a)
  case Nil
  then show ?case by simp
next
  case (Cons v vs)
  obtain ok a1 where s: "Accumulator_accumulate nd a v = Some (ok, a1)"
    using accumulate_cases [OF Cons.prems(1), of v nd] by blast
  have k: "binBoundaryPtr a1 = Some bs" "length (bin (Accumulator.histogram a1)) = HISTOGRAM_BINS"
    using accumulate_keeps_table [OF Cons.prems(1) s] Cons.prems(2) by simp_all
  obtain acc_vs a' where r: "accumulate_all nd a1 vs = Some (acc_vs, a')"
    and l: "length acc_vs \<le> length vs"
    and e: "sum_list (map unat (bin (Accumulator.histogram a1))) + length acc_vs < 2 ^ 32 \<longrightarrow>
          sum_list (map unat (bin (Accumulator.histogram a')))
          = sum_list (map unat (bin (Accumulator.histogram a1))) + length acc_vs"
    using Cons.IH [OF k] by blast
  show ?case
  proof (cases ok)
    case False
    then have "a1 = a" using accumulate_one_bucket [OF Cons.prems(1) s] by simp
    then show ?thesis using s r l e False by simp
  next
    case True
    then obtain i where i: "i < HISTOGRAM_BINS"
      and h: "bin (Accumulator.histogram a1) =
              (bin (Accumulator.histogram a))[i := bin (Accumulator.histogram a) ! i + 1]"
      using accumulate_one_bucket [OF Cons.prems(1) s] by auto
    have "sum_list (map unat (bin (Accumulator.histogram a))) + (1 + length acc_vs) < 2 ^ 32 \<longrightarrow>
          sum_list (map unat (bin (Accumulator.histogram a')))
          = sum_list (map unat (bin (Accumulator.histogram a))) + (1 + length acc_vs)"
    proof
      assume b: "sum_list (map unat (bin (Accumulator.histogram a))) + (1 + length acc_vs) < 2 ^ 32"
      then have "sum_list (map unat (bin (Accumulator.histogram a))) + 1 < 2 ^ 32" by simp
      then have "sum_list (map unat (bin (Accumulator.histogram a1)))
                 = sum_list (map unat (bin (Accumulator.histogram a))) + 1"
        using sum_unat_increment [of i "bin (Accumulator.histogram a)"] i Cons.prems(2) h by simp
      then show "sum_list (map unat (bin (Accumulator.histogram a')))
          = sum_list (map unat (bin (Accumulator.histogram a))) + (1 + length acc_vs)"
        using e b by simp
    qed
    then show ?thesis using s r l True by simp
  qed
qed

lemma reset_histogram_sum:
  "sum_list (map unat (bin (Accumulator.histogram (Accumulator_reset a)))) = 0
   \<and> length (bin (Accumulator.histogram (Accumulator_reset a))) = HISTOGRAM_BINS
   \<and> binBoundaryPtr (Accumulator_reset a) = binBoundaryPtr a"
  by (simp add: Accumulator_reset_def Histogram_reset_def)

text \<open>
  C2. In a run of \<^verbatim>\<open>accumulate\<close> calls from the reset state, a call that returns true
  has added one to exactly one of the twelve counters (the counters are \<^verbatim>\<open>uint32_t\<close>,
  so the addition is modulo \<open>2 ^ 32\<close>) and a call that returns false has changed
  nothing; and as long as fewer than \<open>2 ^ 32\<close> calls have returned true, the sum of the
  twelve counters is the number of those calls.
\<close>

theorem histogram_sum_counts_successes:
  assumes "binBoundaryPtr a0 = Some bs"
  shows "(\<exists>acc_vs a'. accumulate_all nd (Accumulator_reset a0) vs = Some (acc_vs, a')
       \<and> (length acc_vs < 2 ^ 32 \<longrightarrow>
            sum_list (map unat (bin (Accumulator.histogram a'))) = length acc_vs))
     \<and> (binBoundaryPtr a = Some bs \<and> length (bin (Accumulator.histogram a)) = HISTOGRAM_BINS
          \<and> Accumulator_accumulate nd a v = Some (ok, a1) \<longrightarrow>
          length (bin (Accumulator.histogram a1)) = HISTOGRAM_BINS
          \<and> (if ok
               then \<exists>i<HISTOGRAM_BINS. bin (Accumulator.histogram a1) =
                      (bin (Accumulator.histogram a))[i := bin (Accumulator.histogram a) ! i + 1]
               else a1 = a))"
proof (intro conjI impI)
  have p: "binBoundaryPtr (Accumulator_reset a0) = Some bs"
    "length (bin (Accumulator.histogram (Accumulator_reset a0))) = HISTOGRAM_BINS"
    using assms reset_histogram_sum [of a0] by simp_all
  show "\<exists>acc_vs a'. accumulate_all nd (Accumulator_reset a0) vs = Some (acc_vs, a')
       \<and> (length acc_vs < 2 ^ 32 \<longrightarrow>
            sum_list (map unat (bin (Accumulator.histogram a'))) = length acc_vs)"
    using accumulate_all_sum [OF p, of nd vs] reset_histogram_sum [of a0] by auto
next
  assume h: "binBoundaryPtr a = Some bs
    \<and> length (bin (Accumulator.histogram a)) = HISTOGRAM_BINS
    \<and> Accumulator_accumulate nd a v = Some (ok, a1)"
  then show "length (bin (Accumulator.histogram a1)) = HISTOGRAM_BINS"
    using accumulate_keeps_table [of a bs nd v ok a1] by simp
  from h show "if ok
               then \<exists>i<HISTOGRAM_BINS. bin (Accumulator.histogram a1) =
                      (bin (Accumulator.histogram a))[i := bin (Accumulator.histogram a) ! i + 1]
               else a1 = a"
    using accumulate_one_bucket [of a bs nd v ok a1] by simp
qed

section \<open>Minimum and maximum\<close>

lemma isnan_iff: "isnan a \<longleftrightarrow> a = NaN"
  by (cases a) simp_all

lemma dlt_not_special: "dlt v b \<Longrightarrow> v \<noteq> NaN \<and> v \<noteq> PInf"
  by (cases v) auto

lemma dle_refl: "a \<noteq> NaN \<Longrightarrow> dle a a"
  by (cases a) (simp_all add: dle_def)

lemma dle_total: "a \<noteq> NaN \<Longrightarrow> b \<noteq> NaN \<Longrightarrow> \<not> dlt a b \<Longrightarrow> dle b a"
  by (cases a; cases b) (auto simp: dle_def)

lemma dlt_dle_trans: "dlt a b \<Longrightarrow> dle b c \<Longrightarrow> dle a c"
  by (cases a; cases b; cases c) (auto simp: dle_def)

lemma dle_dlt_trans: "dle a b \<Longrightarrow> dlt b c \<Longrightarrow> dle a c"
  by (cases a; cases b; cases c) (auto simp: dle_def)

lemma dlt_imp_dle: "dlt a b \<Longrightarrow> dle a b"
  by (simp add: dle_def)

lemma accumulate_minmax_step:
  assumes t: "binBoundaryPtr a = Some bs"
    and n: "NaN \<notin> set seen"
    and i: "if seen = [] then isnan (Accumulator.minv a) \<and> isnan (Accumulator.maxv a)
            else minmax_of a seen"
    and s: "Accumulator_accumulate nd a v = Some (True, a')"
  shows "v \<noteq> NaN \<and> v \<noteq> PInf \<and> minmax_of a' (seen @ [v])"
proof -
  let ?m = "Accumulator.minv a" and ?M = "Accumulator.maxv a"
  have c: "dlt v (bs ! scan_bins v bs 0)"
    and mn: "Accumulator.minv a' = (if dlt v ?m \<or> isnan ?m then v else ?m)"
    and mx: "Accumulator.maxv a' = (if dgt v ?M \<or> isnan ?M then v else ?M)"
    using accumulate_true_fields [OF t s] by simp_all
  have v: "v \<noteq> NaN" "v \<noteq> PInf" using dlt_not_special [OF c] by simp_all
  show ?thesis
  proof (cases "seen = []")
    case True
    then have "isnan ?m" "isnan ?M" using i by simp_all
    then have "Accumulator.minv a' = v" "Accumulator.maxv a' = v" using mn mx by simp_all
    then show ?thesis using True v by (simp add: minmax_of_def dle_refl)
  next
    case False
    then have mm: "minmax_of a seen" using i by simp
    then have m: "?m \<in> set seen" "\<forall>x\<in>set seen. dle ?m x"
      and M: "?M \<in> set seen" "\<forall>x\<in>set seen. dle x ?M"
      by (simp_all add: minmax_of_def)
    have nn: "?m \<noteq> NaN" "?M \<noteq> NaN" using m(1) M(1) n by auto
    then have ni: "\<not> isnan ?m" "\<not> isnan ?M" by (simp_all add: isnan_iff)
    have min_ok: "Accumulator.minv a' \<in> set (seen @ [v])
      \<and> (\<forall>x\<in>set (seen @ [v]). dle (Accumulator.minv a') x)"
    proof (cases "dlt v ?m")
      case True
      then have "\<forall>x\<in>set seen. dle v x" using m(2) dlt_dle_trans by blast
      then show ?thesis using True mn v dle_refl by simp
    next
      case False
      then have "dle ?m v" using dle_total [OF v(1) nn(1)] by simp
      then show ?thesis using False mn ni m by simp
    qed
    have max_ok: "Accumulator.maxv a' \<in> set (seen @ [v])
      \<and> (\<forall>x\<in>set (seen @ [v]). dle x (Accumulator.maxv a'))"
    proof (cases "dlt ?M v")
      case True
      then have "\<forall>x\<in>set seen. dle x v" using M(2) dle_dlt_trans by blast
      then show ?thesis using True mx v dle_refl by (simp add: dgt_def)
    next
      case False
      then have "dle v ?M" using dle_total [OF nn(2) v(1)] by simp
      then show ?thesis using False mx ni M by (simp add: dgt_def)
    qed
    show ?thesis using v min_ok max_ok by (simp add: minmax_of_def)
  qed
qed

lemma accumulate_all_minmax:
  assumes "binBoundaryPtr a = Some bs"
    and "NaN \<notin> set seen"
    and "if seen = [] then isnan (Accumulator.minv a) \<and> isnan (Accumulator.maxv a)
         else minmax_of a seen"
  shows "\<exists>acc_vs a'. accumulate_all nd a vs = Some (acc_vs, a')
     \<and> binBoundaryPtr a' = Some bs
     \<and> NaN \<notin> set (seen @ acc_vs) \<and> PInf \<notin> set acc_vs
     \<and> (if seen @ acc_vs = []
         then isnan (Accumulator.minv a') \<and> isnan (Accumulator.maxv a')
         else minmax_of a' (seen @ acc_vs))"
  using assms
proof (induction vs arbitrary: a seen)
  case Nil
  then show ?case by simp
next
  case (Cons v vs)
  obtain ok a1 where s: "Accumulator_accumulate nd a v = Some (ok, a1)"
    using accumulate_cases [OF Cons.prems(1), of v nd] by blast
  have k: "binBoundaryPtr a1 = Some bs"
    using accumulate_keeps_table [OF Cons.prems(1) s] by simp
  show ?case
  proof (cases ok)
    case False
    then have e: "a1 = a" using accumulate_one_bucket [OF Cons.prems(1) s] by simp
    obtain acc_vs a' where r: "accumulate_all nd a vs = Some (acc_vs, a')"
      "binBoundaryPtr a' = Some bs" "NaN \<notin> set (seen @ acc_vs)" "PInf \<notin> set acc_vs"
      "if seen @ acc_vs = []
         then isnan (Accumulator.minv a') \<and> isnan (Accumulator.maxv a')
         else minmax_of a' (seen @ acc_vs)"
      using Cons.IH [OF Cons.prems] by blast
    show ?thesis using s e False r by simp
  next
    case True
    then have st: "v \<noteq> NaN \<and> v \<noteq> PInf \<and> minmax_of a1 (seen @ [v])"
      using accumulate_minmax_step [OF Cons.prems] s by simp
    have p2: "NaN \<notin> set (seen @ [v])" using st Cons.prems(2) by auto
    have p3: "if seen @ [v] = []
         then isnan (Accumulator.minv a1) \<and> isnan (Accumulator.maxv a1)
         else minmax_of a1 (seen @ [v])"
      using st by simp
    obtain acc_vs a' where r: "accumulate_all nd a1 vs = Some (acc_vs, a')"
      "binBoundaryPtr a' = Some bs" "NaN \<notin> set ((seen @ [v]) @ acc_vs)" "PInf \<notin> set acc_vs"
      "if (seen @ [v]) @ acc_vs = []
         then isnan (Accumulator.minv a') \<and> isnan (Accumulator.maxv a')
         else minmax_of a' ((seen @ [v]) @ acc_vs)"
      using Cons.IH [OF k p2 p3] by blast
    show ?thesis using s True r st by auto
  qed
qed

lemma accumulate_monotone:
  assumes t: "binBoundaryPtr a = Some bs"
    and n: "\<not> isnan (Accumulator.minv a)" "\<not> isnan (Accumulator.maxv a)"
    and s: "Accumulator_accumulate nd a v = Some (ok, a')"
  shows "dle (Accumulator.minv a') (Accumulator.minv a)
     \<and> dle (Accumulator.maxv a) (Accumulator.maxv a')"
proof -
  let ?m = "Accumulator.minv a" and ?M = "Accumulator.maxv a"
  have nn: "?m \<noteq> NaN" "?M \<noteq> NaN"
    using n by (simp_all add: isnan_iff)
  have r: "dle ?m ?m" "dle ?M ?M" using nn by (simp_all add: dle_refl)
  show ?thesis
  proof (cases ok)
    case False
    then have "a' = a" using accumulate_one_bucket [OF t s] by simp
    then show ?thesis using r by simp
  next
    case True
    then have mn: "Accumulator.minv a' = (if dlt v ?m \<or> isnan ?m then v else ?m)"
      and mx: "Accumulator.maxv a' = (if dgt v ?M \<or> isnan ?M then v else ?M)"
      using accumulate_true_fields [OF t, of nd v a'] s by simp_all
    have "dle (Accumulator.minv a') ?m"
      using mn n(1) r(1) by (simp add: dlt_imp_dle)
    moreover have "dle ?M (Accumulator.maxv a')"
      using mx n(2) r(2) by (simp add: dlt_imp_dle dgt_def)
    ultimately show ?thesis by simp
  qed
qed

text \<open>
  C3. After a run of \<^verbatim>\<open>accumulate\<close> calls from the reset state in which at least one
  value was accepted, the minimum and the maximum of the accumulator are the least and
  the greatest of the accepted values, neither of them is not-a-number, and a further
  call never raises the minimum nor lowers the maximum.
\<close>

theorem min_max_are_true_extremes:
  assumes "binBoundaryPtr a0 = Some bs"
  shows "\<exists>acc_vs a'. accumulate_all nd (Accumulator_reset a0) vs = Some (acc_vs, a')
     \<and> (acc_vs \<noteq> [] \<longrightarrow>
          minmax_of a' acc_vs
          \<and> \<not> isnan (Accumulator.minv a') \<and> \<not> isnan (Accumulator.maxv a')
          \<and> (\<forall>v ok a''. Accumulator_accumulate nd a' v = Some (ok, a'') \<longrightarrow>
                dle (Accumulator.minv a'') (Accumulator.minv a')
                \<and> dle (Accumulator.maxv a') (Accumulator.maxv a'')))"
proof -
  have p: "binBoundaryPtr (Accumulator_reset a0) = Some bs"
    using assms by (simp add: Accumulator_reset_def)
  have q: "if ([]::double list) = []
     then isnan (Accumulator.minv (Accumulator_reset a0))
          \<and> isnan (Accumulator.maxv (Accumulator_reset a0))
     else minmax_of (Accumulator_reset a0) []"
    by (simp add: Accumulator_reset_def)
  obtain acc_vs a' where r: "accumulate_all nd (Accumulator_reset a0) vs = Some (acc_vs, a')"
    and t: "binBoundaryPtr a' = Some bs"
    and n: "NaN \<notin> set ([] @ acc_vs)"
    and m: "if [] @ acc_vs = []
         then isnan (Accumulator.minv a') \<and> isnan (Accumulator.maxv a')
         else minmax_of a' ([] @ acc_vs)"
    using accumulate_all_minmax [OF p _ q, of nd vs] by auto
  have "acc_vs \<noteq> [] \<longrightarrow>
          minmax_of a' acc_vs
          \<and> \<not> isnan (Accumulator.minv a') \<and> \<not> isnan (Accumulator.maxv a')
          \<and> (\<forall>v ok a''. Accumulator_accumulate nd a' v = Some (ok, a'') \<longrightarrow>
                dle (Accumulator.minv a'') (Accumulator.minv a')
                \<and> dle (Accumulator.maxv a') (Accumulator.maxv a''))"
  proof
    assume ne: "acc_vs \<noteq> []"
    then have mm: "minmax_of a' acc_vs" using m by simp
    then have "Accumulator.minv a' \<in> set acc_vs" "Accumulator.maxv a' \<in> set acc_vs"
      by (simp_all add: minmax_of_def)
    then have "Accumulator.minv a' \<noteq> NaN" "Accumulator.maxv a' \<noteq> NaN"
      using n by auto
    then have i: "\<not> isnan (Accumulator.minv a')" "\<not> isnan (Accumulator.maxv a')"
      by (simp_all add: isnan_iff)
    show "minmax_of a' acc_vs
          \<and> \<not> isnan (Accumulator.minv a') \<and> \<not> isnan (Accumulator.maxv a')
          \<and> (\<forall>v ok a''. Accumulator_accumulate nd a' v = Some (ok, a'') \<longrightarrow>
                dle (Accumulator.minv a'') (Accumulator.minv a')
                \<and> dle (Accumulator.maxv a') (Accumulator.maxv a''))"
    proof (intro conjI allI impI)
      fix v ok a''
      assume "Accumulator_accumulate nd a' v = Some (ok, a'')"
      then show "dle (Accumulator.minv a'') (Accumulator.minv a')"
        "dle (Accumulator.maxv a') (Accumulator.maxv a'')"
        using accumulate_monotone [OF t i] by simp_all
    qed (use mm i in simp_all)
  qed
  then show ?thesis using r by blast
qed

section \<open>Minus infinity\<close>

lemma dlt_MInf: "dlt MInf b \<longleftrightarrow> b \<noteq> NaN \<and> b \<noteq> MInf"
  by (cases b) simp_all

lemma d64_pos_not_MInf: "0 < x \<Longrightarrow> d64 x \<noteq> MInf"
  by (simp add: d64_def Let_def)

lemma d64_first_negative: "d64 (- 10000) = Fin (- 10000)" "d64 (- 1) = Fin (- 1)"
  by (simp_all add: d64_eval)

lemma boundary_tables_first:
  assumes "bs \<in> set boundary_tables"
  shows "dlt MInf (bs ! 0)"
  using assms
  by (auto simp: boundary_tables_def binBoundaryV110_def binBoundaryV230_def
      binBoundaryI_def binBoundaryP_def binBoundaryQ_def binBoundaryPF_def binBoundaryF50_def
      binBoundaryF60_def dlt_MInf d64_not_NaN d64_pos_not_MInf d64_first_negative)

lemma scan_bins_MInf:
  assumes "bs \<in> set boundary_tables"
  shows "scan_bins MInf bs 0 = 0"
  using boundary_tables_first [OF assms]
  by (subst scan_bins.simps) (simp add: HISTOGRAM_BINS_def)

lemma dadd_MInf_right: "dadd t MInf = (if t = NaN \<or> t = PInf then NaN else MInf)"
  by (cases t) simp_all

lemma dadd_MInf_left: "v \<noteq> NaN \<Longrightarrow> v \<noteq> PInf \<Longrightarrow> dadd MInf v = MInf"
  by (cases v) simp_all

text \<open>
  C10. For an accumulator that points to one of the boundary tables, \<^verbatim>\<open>accumulate\<close> of
  minus infinity returns true, increments bucket 0 and sets the minimum to minus
  infinity; the total becomes minus infinity unless it was plus infinity or
  not-a-number, in which case it becomes not-a-number; once the total is minus infinity
  every later call leaves it so; and the calls that return false are exactly those with
  not-a-number or plus infinity.
\<close>

theorem accumulate_minus_infinity:
  assumes "binBoundaryPtr a = Some bs" and "bs \<in> set boundary_tables"
  shows "Accumulator_accumulate nd a MInf =
       Some (True, a\<lparr>Accumulator.histogram :=
                       \<lparr>bin = (bin (Accumulator.histogram a))
                                 [0 := bin (Accumulator.histogram a) ! 0 + 1]\<rparr>,
                     totalv := (if totalv a = NaN \<or> totalv a = PInf then NaN else MInf),
                     Accumulator.minv := MInf,
                     Accumulator.maxv :=
                       (if isnan (Accumulator.maxv a) then MInf else Accumulator.maxv a)\<rparr>)
     \<and> (totalv a = MInf \<longrightarrow>
          (\<forall>v ok a'. Accumulator_accumulate nd a v = Some (ok, a') \<longrightarrow> totalv a' = MInf))
     \<and> (\<forall>v. Accumulator_accumulate nd a v = Some (False, a) \<longleftrightarrow> v = NaN \<or> v = PInf)"
proof (intro conjI impI allI)
  have z: "scan_bins MInf bs 0 = 0" by (rule scan_bins_MInf [OF assms(2)])
  have lt: "scan_bins MInf bs 0 < HISTOGRAM_BINS" by (simp add: z HISTOGRAM_BINS_def)
  have m: "(if dlt MInf (Accumulator.minv a) \<or> isnan (Accumulator.minv a) then MInf
            else Accumulator.minv a) = MInf"
    by (cases "Accumulator.minv a") simp_all
  have M: "(if dgt MInf (Accumulator.maxv a) \<or> isnan (Accumulator.maxv a) then MInf
            else Accumulator.maxv a)
           = (if isnan (Accumulator.maxv a) then MInf else Accumulator.maxv a)"
    by (cases "Accumulator.maxv a") (simp_all add: dgt_def)
  show "Accumulator_accumulate nd a MInf =
       Some (True, a\<lparr>Accumulator.histogram :=
                       \<lparr>bin = (bin (Accumulator.histogram a))
                                 [0 := bin (Accumulator.histogram a) ! 0 + 1]\<rparr>,
                     totalv := (if totalv a = NaN \<or> totalv a = PInf then NaN else MInf),
                     Accumulator.minv := MInf,
                     Accumulator.maxv :=
                       (if isnan (Accumulator.maxv a) then MInf else Accumulator.maxv a)\<rparr>)"
    unfolding accumulate_success [OF assms(1) lt, of nd] z m M dadd_MInf_right ..
next
  fix v ok a'
  assume t: "totalv a = MInf" and s: "Accumulator_accumulate nd a v = Some (ok, a')"
  show "totalv a' = MInf"
  proof (cases ok)
    case False
    then have "a' = a" using accumulate_one_bucket [OF assms(1) s] by simp
    then show ?thesis using t by simp
  next
    case True
    then have f: "dlt v (bs ! scan_bins v bs 0)" "totalv a' = dadd (totalv a) v"
      using accumulate_true_fields [OF assms(1), of nd v a'] s by simp_all
    have "v \<noteq> NaN \<and> v \<noteq> PInf" using dlt_not_special [OF f(1)] .
    then show ?thesis using f(2) t by (simp add: dadd_MInf_left)
  qed
next
  fix v
  show "Accumulator_accumulate nd a v = Some (False, a) \<longleftrightarrow> v = NaN \<or> v = PInf"
  proof
    assume r: "Accumulator_accumulate nd a v = Some (False, a)"
    show "v = NaN \<or> v = PInf"
    proof (rule ccontr)
      assume "\<not> (v = NaN \<or> v = PInf)"
      then have "scan_bins v bs 0 < HISTOGRAM_BINS"
        using scan_bins_accept [OF assms(2), of v] by simp
      then show False using accumulate_success [OF assms(1), of v nd] r by simp
    qed
  next
    assume "v = NaN \<or> v = PInf"
    then show "Accumulator_accumulate nd a v = Some (False, a)"
      using accumulate_failure [OF assms(1) scan_bins_reject [OF assms(2)]] by simp
  qed
qed

section \<open>Summaries without samples\<close>

text \<open>
  C9. \<^verbatim>\<open>summarise\<close> with count 0 returns false and leaves the summary it was given as
  it is: average, minimum, maximum and histogram are not written (with assertions
  compiled in it stops at the assertion). With any other count the histogram of the
  accumulator is copied into the summary.
\<close>

theorem summarise_zero_count_untouched:
  "Accumulator_summarise ndebug a summary 0 = (if ndebug then Some (False, summary) else None)
   \<and> (cnt \<noteq> 0 \<longrightarrow>
        (\<exists>s. Accumulator_summarise ndebug a summary cnt = Some (True, s)
           \<and> Summary.histogram s = Accumulator.histogram a))"
  by (simp add: Accumulator_summarise_def assert_c_def Let_def)

lemma phase_summarise_zero:
  "PhaseAccumulator_summarise ndebug pa ps 0 = (if ndebug then Some (False, ps) else None)"
  by (simp add: PhaseAccumulator_summarise_def Accumulator_summarise_def assert_c_def)

lemma sample_reset_count: "SampleAccumulator.count (SampleAccumulator_reset now sa) = 0"
  by (simp add: SampleAccumulator_reset_def)

text \<open>
  C5. \<^verbatim>\<open>summarise\<close> of a value accumulator fails when the count is 0: it returns false
  (it stops at the assertion when assertions are compiled in). After \<^verbatim>\<open>Report::reset\<close>,
  whatever the report held before, the count is 0 and \<^verbatim>\<open>Report::summarise\<close> fails in the
  same way; of the summary it only writes the count and the two time stamps.
\<close>

theorem summarise_fails_without_samples:
  "Accumulator_summarise True a summary 0 = Some (False, summary)
   \<and> Accumulator_summarise False a summary 0 = None
   \<and> Report_count (Report_reset now r) = 0
   \<and> Report_summarise True (Report_reset now r) ss =
        Some (False, ss\<lparr>SampleSummary.count := 0, SampleSummary.tsStart := now,
                         SampleSummary.tsEnd := now\<rparr>)
   \<and> Report_summarise False (Report_reset now r) ss = None"
proof -
  have c: "SampleAccumulator.count (acc (Report_reset now r)) = 0"
    by (simp add: Report_reset_def sample_reset_count)
  have t: "SampleAccumulator.tsStart (acc (Report_reset now r)) = now"
    "SampleAccumulator.tsEnd (acc (Report_reset now r)) = now"
    by (simp_all add: Report_reset_def SampleAccumulator_reset_def)
  have a: "Accumulator_summarise True a summary 0 = Some (False, summary)"
    "Accumulator_summarise False a summary 0 = None"
    by (simp_all add: Accumulator_summarise_def assert_c_def)
  have f: "\<And>a s. Accumulator_summarise True a s 0 = Some (False, s)"
    "\<And>a s. Accumulator_summarise False a s 0 = None"
    by (simp_all add: Accumulator_summarise_def assert_c_def)
  have "Report_summarise True (Report_reset now r) ss =
        Some (False, ss\<lparr>SampleSummary.count := 0, SampleSummary.tsStart := now,
                         SampleSummary.tsEnd := now\<rparr>)"
    by (simp add: Report_summarise_def SampleAccumulator_summarise_def c t phase_summarise_zero f
        assert_c_def)
  moreover have "Report_summarise False (Report_reset now r) ss = None"
    by (simp add: Report_summarise_def SampleAccumulator_summarise_def c phase_summarise_zero)
  ultimately show ?thesis
    using a c by (simp add: Report_count_def)
qed

section \<open>Calls on concrete values\<close>

lemma scan_bins_eval:
  "scan_bins v bs b =
     (if b < 12 then (if dlt v (bs ! b) then b else scan_bins v bs (b + 1)) else b)"
  by (subst scan_bins.simps) (simp add: HISTOGRAM_BINS_def)

lemma Histogram_reset_values:
  "Histogram_reset = \<lparr>bin = [0, 0, 0, 0, 0, 0, 0, 0, 0, 0, 0, 0]\<rparr>"
  by (simp add: Histogram_reset_def HISTOGRAM_BINS_def eval_nat_numeral)

lemma binBoundaryV230_values:
  "binBoundaryV230 =
    [Fin 205, Fin 210, Fin 215, Fin 220, Fin 225, Fin 230, Fin 235, Fin 240, Fin 245,
     Fin 250, Fin 255, PInf]"
  by (simp add: binBoundaryV230_def d64_eval)

lemma binBoundaryP_values:
  "binBoundaryP =
    [Fin (- 10000), Fin (- 3000), Fin (- 1000), Fin (- 300), Fin (- 100), Fin 0, Fin
     100, Fin 300, Fin 1000, Fin 3000, Fin 10000, PInf]"
  by (simp add: binBoundaryP_def d64_eval)

lemma binBoundaryQ_values:
  "binBoundaryQ =
    [Fin (- 10000), Fin (- 3000), Fin (- 1000), Fin (- 300), Fin (- 100), Fin 0, Fin
     100, Fin 300, Fin 1000, Fin 3000, Fin 10000, PInf]"
  by (simp add: binBoundaryQ_def d64_eval)

lemma binBoundaryPF_values:
  "binBoundaryPF =
    [Fin (- 1), Fin (- (3602879701896397 / 4503599627370496)), Fin (- (5404319552844595
     / 9007199254740992)), Fin (- (3602879701896397 / 9007199254740992)), Fin (-
     (3602879701896397 / 18014398509481984)), Fin 0, Fin (3602879701896397 /
     18014398509481984), Fin (3602879701896397 / 9007199254740992), Fin
     (5404319552844595 / 9007199254740992), Fin (3602879701896397 / 4503599627370496),
     Fin 1, PInf]"
  by (simp add: binBoundaryPF_def d64_eval)

lemma binBoundaryV_values:
  "binBoundaryV =
    [Fin 205, Fin 210, Fin 215, Fin 220, Fin 225, Fin 230, Fin 235, Fin 240, Fin 245,
     Fin 250, Fin 255, PInf]"
  by (simp add: binBoundaryV_def EXPECTED_VOLTAGE_def binBoundaryV230_values)

lemma d64_small_values:
  "d64 0 = Fin 0" "d64 50 = Fin 50" "d64 100 = Fin 100" "d64 230 = Fin 230"
  "d64 461 = Fin 461" "d64 690 = Fin 690" "d64 2300 = Fin 2300" "d64 2290 = Fin 2290"
  "d64 2310 = Fin 2310" "d64 229 = Fin 229" "d64 231 = Fin 231"
  by (simp_all add: d64_eval)

lemmas acc_eval = Accumulator_accumulate_def Let_def HISTOGRAM_BINS_def assert_c_def
  Accumulator_init_def Histogram_reset_values dgt_def scan_bins_eval d64_small_values

lemma vrms_table: "binBoundaryPtr AccumulatorVrms = Some binBoundaryV"
  by (simp add: AccumulatorVrms_def)

lemma reset_vrms_id: "Accumulator_reset AccumulatorVrms = AccumulatorVrms"
  by (simp add: Accumulator_reset_def AccumulatorVrms_def Accumulator_init_def)

lemma vrms_230_first:
  "Accumulator_accumulate nd AccumulatorVrms (Fin 230) =
     Some (True, AccumulatorVrms
       \<lparr>Accumulator.histogram := \<lparr>bin = [0, 0, 0, 0, 0, 0, 1, 0, 0, 0, 0, 0]\<rparr>,
        totalv := Fin 230, Accumulator.minv := Fin 230, Accumulator.maxv := Fin 230\<rparr>)"
  by (simp add: AccumulatorVrms_def binBoundaryV_values acc_eval)

lemma vrms_231_first:
  "Accumulator_accumulate nd AccumulatorVrms (Fin 231) =
     Some (True, AccumulatorVrms
       \<lparr>Accumulator.histogram := \<lparr>bin = [0, 0, 0, 0, 0, 0, 1, 0, 0, 0, 0, 0]\<rparr>,
        totalv := Fin 231, Accumulator.minv := Fin 231, Accumulator.maxv := Fin 231\<rparr>)"
  by (simp add: AccumulatorVrms_def binBoundaryV_values acc_eval)

lemma vrms_231_second:
  "Accumulator_accumulate nd
     (AccumulatorVrms
       \<lparr>Accumulator.histogram := \<lparr>bin = [0, 0, 0, 0, 0, 0, 1, 0, 0, 0, 0, 0]\<rparr>,
        totalv := Fin 230, Accumulator.minv := Fin 230, Accumulator.maxv := Fin 230\<rparr>)
     (Fin 231) =
   Some (True, AccumulatorVrms
       \<lparr>Accumulator.histogram := \<lparr>bin = [0, 0, 0, 0, 0, 0, 2, 0, 0, 0, 0, 0]\<rparr>,
        totalv := Fin 461, Accumulator.minv := Fin 230, Accumulator.maxv := Fin 231\<rparr>)"
  by (simp add: AccumulatorVrms_def binBoundaryV_values acc_eval)

lemma vrms_229_third:
  "Accumulator_accumulate nd
     (AccumulatorVrms
       \<lparr>Accumulator.histogram := \<lparr>bin = [0, 0, 0, 0, 0, 0, 2, 0, 0, 0, 0, 0]\<rparr>,
        totalv := Fin 461, Accumulator.minv := Fin 230, Accumulator.maxv := Fin 231\<rparr>)
     (Fin 229) =
   Some (True, AccumulatorVrms
       \<lparr>Accumulator.histogram := \<lparr>bin = [0, 0, 0, 0, 0, 1, 2, 0, 0, 0, 0, 0]\<rparr>,
        totalv := Fin 690, Accumulator.minv := Fin 229, Accumulator.maxv := Fin 231\<rparr>)"
  by (simp add: AccumulatorVrms_def binBoundaryV_values acc_eval)

lemma vrms_three_run:
  "accumulate_all nd AccumulatorVrms [Fin 230, Fin 231, Fin 229] =
       Some ([Fin 230, Fin 231, Fin 229],
         AccumulatorVrms
           \<lparr>Accumulator.histogram := \<lparr>bin = [0, 0, 0, 0, 0, 1, 2, 0, 0, 0, 0, 0]\<rparr>,
            totalv := Fin 690, Accumulator.minv := Fin 229, Accumulator.maxv := Fin 231\<rparr>)"
  by (simp add: vrms_230_first vrms_231_second vrms_229_third)

lemma powerActive_100_first:
  "Accumulator_accumulate nd AccumulatorPowerActive (Fin 100) =
     Some (True, AccumulatorPowerActive
       \<lparr>Accumulator.histogram := \<lparr>bin = [0, 0, 0, 0, 0, 0, 0, 1, 0, 0, 0, 0]\<rparr>,
        totalv := Fin 100, Accumulator.minv := Fin 100, Accumulator.maxv := Fin 100\<rparr>)"
  by (simp add: AccumulatorPowerActive_def binBoundaryP_values acc_eval)

lemma powerReactive_50_first:
  "Accumulator_accumulate nd AccumulatorPowerReactive (Fin 50) =
     Some (True, AccumulatorPowerReactive
       \<lparr>Accumulator.histogram := \<lparr>bin = [0, 0, 0, 0, 0, 0, 1, 0, 0, 0, 0, 0]\<rparr>,
        totalv := Fin 50, Accumulator.minv := Fin 50, Accumulator.maxv := Fin 50\<rparr>)"
  by (simp add: AccumulatorPowerReactive_def binBoundaryQ_values acc_eval)

lemma powerFactor_0_first:
  "Accumulator_accumulate nd AccumulatorPowerFactor (Fin 0) =
     Some (True, AccumulatorPowerFactor
       \<lparr>Accumulator.histogram := \<lparr>bin = [0, 0, 0, 0, 0, 0, 1, 0, 0, 0, 0, 0]\<rparr>,
        totalv := Fin 0, Accumulator.minv := Fin 0, Accumulator.maxv := Fin 0\<rparr>)"
  by (simp add: AccumulatorPowerFactor_def binBoundaryPF_values acc_eval)

lemma binBoundaryI_in_tables: "binBoundaryI \<in> set boundary_tables"
  by (simp add: boundary_tables_def)

lemma irms_NaN_rejected:
  "Accumulator_accumulate nd AccumulatorIrms NaN = Some (False, AccumulatorIrms)"
proof -
  have p: "binBoundaryPtr AccumulatorIrms = Some binBoundaryI"
    by (simp add: AccumulatorIrms_def)
  show ?thesis
    by (rule accumulate_failure [OF p scan_bins_reject [OF binBoundaryI_in_tables]]) simp
qed

lemma binBoundaryF_in_tables: "binBoundaryF \<in> set boundary_tables"
  by (simp add: binBoundaryF_def boundary_tables_def EXPECTED_FREQUENCY_def)

lemma frequency_NaN_rejected:
  "Accumulator_accumulate nd AccumulatorFrequency NaN = Some (False, AccumulatorFrequency)"
proof -
  have p: "binBoundaryPtr AccumulatorFrequency = Some binBoundaryF"
    by (simp add: AccumulatorFrequency_def)
  show ?thesis
    by (rule accumulate_failure [OF p scan_bins_reject [OF binBoundaryF_in_tables]]) simp
qed

lemma phase_one_nan_example:
  "PhaseAccumulator_accumulate nd PhaseAccumulator_init
      \<lparr>Phase.vrms = Fin 230, Phase.irms = NaN, Phase.powerActive = Fin 100,
       Phase.powerReactive = Fin 50, Phase.powerFactor = Fin 0\<rparr>
   = (if nd then Some (False,
         \<lparr>PhaseAccumulator.vrms = AccumulatorVrms
            \<lparr>Accumulator.histogram := \<lparr>bin = [0, 0, 0, 0, 0, 0, 1, 0, 0, 0, 0, 0]\<rparr>,
             totalv := Fin 230, Accumulator.minv := Fin 230, Accumulator.maxv := Fin 230\<rparr>,
          PhaseAccumulator.irms = AccumulatorIrms,
          PhaseAccumulator.powerActive = AccumulatorPowerActive
            \<lparr>Accumulator.histogram := \<lparr>bin = [0, 0, 0, 0, 0, 0, 0, 1, 0, 0, 0, 0]\<rparr>,
             totalv := Fin 100, Accumulator.minv := Fin 100, Accumulator.maxv := Fin 100\<rparr>,
          PhaseAccumulator.powerReactive = AccumulatorPowerReactive
            \<lparr>Accumulator.histogram := \<lparr>bin = [0, 0, 0, 0, 0, 0, 1, 0, 0, 0, 0, 0]\<rparr>,
             totalv := Fin 50, Accumulator.minv := Fin 50, Accumulator.maxv := Fin 50\<rparr>,
          PhaseAccumulator.powerFactor = AccumulatorPowerFactor
            \<lparr>Accumulator.histogram := \<lparr>bin = [0, 0, 0, 0, 0, 0, 1, 0, 0, 0, 0, 0]\<rparr>,
             totalv := Fin 0, Accumulator.minv := Fin 0, Accumulator.maxv := Fin 0\<rparr>\<rparr>)
      else None)"
  by (simp add: PhaseAccumulator_accumulate_def PhaseAccumulator_init_def vrms_230_first
      irms_NaN_rejected powerActive_100_first powerReactive_50_first powerFactor_0_first
      assert_c_def)

lemma Report_init_acc:
  "acc (Report_init now) =
     \<lparr>p1 = PhaseAccumulator_init, p2 = PhaseAccumulator_init, p3 = PhaseAccumulator_init,
      frequency = AccumulatorFrequency, count = 0, intervalMin = INT32_MAX, intervalMax = 0,
      tsLast = now, tsStart = now, tsEnd = now\<rparr>"
  by (simp add: Report_init_def Report_reset_def SampleAccumulator_reset_def
      PhaseAccumulator_reset_def PhaseAccumulator_init_def Accumulator_reset_def
      AccumulatorVrms_def AccumulatorIrms_def AccumulatorPowerActive_def
      AccumulatorPowerReactive_def AccumulatorPowerFactor_def AccumulatorFrequency_def
      Accumulator_init_def)

lemma sample_partial_example:
  "SampleAccumulator_accumulate nd 7 (acc (Report_init 0))
     \<lparr>Sample.p1 = \<lparr>Phase.vrms = Fin 230, Phase.irms = NaN, Phase.powerActive = Fin 100,
                    Phase.powerReactive = Fin 50, Phase.powerFactor = Fin 0\<rparr>,
      Sample.p2 = \<lparr>Phase.vrms = Fin 230, Phase.irms = NaN, Phase.powerActive = Fin 100,
                    Phase.powerReactive = Fin 50, Phase.powerFactor = Fin 0\<rparr>,
      Sample.p3 = \<lparr>Phase.vrms = Fin 230, Phase.irms = NaN, Phase.powerActive = Fin 100,
                    Phase.powerReactive = Fin 50, Phase.powerFactor = Fin 0\<rparr>,
      Sample.frequency = NaN\<rparr>
   = (if nd then Some (False,
        \<lparr>p1 = \<lparr>PhaseAccumulator.vrms = AccumulatorVrms
            \<lparr>Accumulator.histogram := \<lparr>bin = [0, 0, 0, 0, 0, 0, 1, 0, 0, 0, 0, 0]\<rparr>,
             totalv := Fin 230, Accumulator.minv := Fin 230, Accumulator.maxv := Fin 230\<rparr>,
          PhaseAccumulator.irms = AccumulatorIrms,
          PhaseAccumulator.powerActive = AccumulatorPowerActive
            \<lparr>Accumulator.histogram := \<lparr>bin = [0, 0, 0, 0, 0, 0, 0, 1, 0, 0, 0, 0]\<rparr>,
             totalv := Fin 100, Accumulator.minv := Fin 100, Accumulator.maxv := Fin 100\<rparr>,
          PhaseAccumulator.powerReactive = AccumulatorPowerReactive
            \<lparr>Accumulator.histogram := \<lparr>bin = [0, 0, 0, 0, 0, 0, 1, 0, 0, 0, 0, 0]\<rparr>,
             totalv := Fin 50, Accumulator.minv := Fin 50, Accumulator.maxv := Fin 50\<rparr>,
          PhaseAccumulator.powerFactor = AccumulatorPowerFactor
            \<lparr>Accumulator.histogram := \<lparr>bin = [0, 0, 0, 0, 0, 0, 1, 0, 0, 0, 0, 0]\<rparr>,
             totalv := Fin 0, Accumulator.minv := Fin 0, Accumulator.maxv := Fin 0\<rparr>\<rparr>,
         p2 = \<lparr>PhaseAccumulator.vrms = AccumulatorVrms
            \<lparr>Accumulator.histogram := \<lparr>bin = [0, 0, 0, 0, 0, 0, 1, 0, 0, 0, 0, 0]\<rparr>,
             totalv := Fin 230, Accumulator.minv := Fin 230, Accumulator.maxv := Fin 230\<rparr>,
          PhaseAccumulator.irms = AccumulatorIrms,
          PhaseAccumulator.powerActive = AccumulatorPowerActive
            \<lparr>Accumulator.histogram := \<lparr>bin = [0, 0, 0, 0, 0, 0, 0, 1, 0, 0, 0, 0]\<rparr>,
             totalv := Fin 100, Accumulator.minv := Fin 100, Accumulator.maxv := Fin 100\<rparr>,
          PhaseAccumulator.powerReactive = AccumulatorPowerReactive
            \<lparr>Accumulator.histogram := \<lparr>bin = [0, 0, 0, 0, 0, 0, 1, 0, 0, 0, 0, 0]\<rparr>,
             totalv := Fin 50, Accumulator.minv := Fin 50, Accumulator.maxv := Fin 50\<rparr>,
          PhaseAccumulator.powerFactor = AccumulatorPowerFactor
            \<lparr>Accumulator.histogram := \<lparr>bin = [0, 0, 0, 0, 0, 0, 1, 0, 0, 0, 0, 0]\<rparr>,
             totalv := Fin 0, Accumulator.minv := Fin 0, Accumulator.maxv := Fin 0\<rparr>\<rparr>,
         p3 = \<lparr>PhaseAccumulator.vrms = AccumulatorVrms
            \<lparr>Accumulator.histogram := \<lparr>bin = [0, 0, 0, 0, 0, 0, 1, 0, 0, 0, 0, 0]\<rparr>,
             totalv := Fin 230, Accumulator.minv := Fin 230, Accumulator.maxv := Fin 230\<rparr>,
          PhaseAccumulator.irms = AccumulatorIrms,
          PhaseAccumulator.powerActive = AccumulatorPowerActive
            \<lparr>Accumulator.histogram := \<lparr>bin = [0, 0, 0, 0, 0, 0, 0, 1, 0, 0, 0, 0]\<rparr>,
             totalv := Fin 100, Accumulator.minv := Fin 100, Accumulator.maxv := Fin 100\<rparr>,
          PhaseAccumulator.powerReactive = AccumulatorPowerReactive
            \<lparr>Accumulator.histogram := \<lparr>bin = [0, 0, 0, 0, 0, 0, 1, 0, 0, 0, 0, 0]\<rparr>,
             totalv := Fin 50, Accumulator.minv := Fin 50, Accumulator.maxv := Fin 50\<rparr>,
          PhaseAccumulator.powerFactor = AccumulatorPowerFactor
            \<lparr>Accumulator.histogram := \<lparr>bin = [0, 0, 0, 0, 0, 0, 1, 0, 0, 0, 0, 0]\<rparr>,
             totalv := Fin 0, Accumulator.minv := Fin 0, Accumulator.maxv := Fin 0\<rparr>\<rparr>,
         frequency = AccumulatorFrequency, count = 0, intervalMin = INT32_MAX,
         intervalMax = 0, tsLast = 0, tsStart = 0, tsEnd = 0\<rparr>)
      else None)"
  by (simp add: SampleAccumulator_accumulate_def Report_init_acc phase_one_nan_example
      frequency_NaN_rejected assert_c_def)

theorem summarise_zero_count_untouched_witness:
  "Accumulator_summarise True AccumulatorVrms Summary_reset 0 = Some (False, Summary_reset)
   \<and> (3::u32) \<noteq> 0
   \<and> (\<exists>s. Accumulator_summarise True AccumulatorVrms Summary_reset 3 = Some (True, s)
           \<and> Summary.histogram s = Accumulator.histogram AccumulatorVrms)"
  using summarise_zero_count_untouched [of True AccumulatorVrms Summary_reset 3]
  by simp

theorem histogram_sum_counts_successes_witness:
  "binBoundaryPtr AccumulatorVrms = Some binBoundaryV
   \<and> accumulate_all True (Accumulator_reset AccumulatorVrms) [Fin 230, Fin 231, Fin 229] =
       Some ([Fin 230, Fin 231, Fin 229],
         AccumulatorVrms
           \<lparr>Accumulator.histogram := \<lparr>bin = [0, 0, 0, 0, 0, 1, 2, 0, 0, 0, 0, 0]\<rparr>,
            totalv := Fin 690, Accumulator.minv := Fin 229, Accumulator.maxv := Fin 231\<rparr>)
   \<and> length [Fin 230, Fin 231, Fin 229] < (2 ^ 32 :: nat)
   \<and> sum_list (map unat (bin (Accumulator.histogram (AccumulatorVrms
           \<lparr>Accumulator.histogram := \<lparr>bin = [0, 0, 0, 0, 0, 1, 2, 0, 0, 0, 0, 0]\<rparr>,
            totalv := Fin 690, Accumulator.minv := Fin 229, Accumulator.maxv := Fin 231\<rparr>))))
       = length [Fin 230, Fin 231, Fin 229]"
proof -
  obtain acc_vs a' where
    r: "accumulate_all True (Accumulator_reset AccumulatorVrms) [Fin 230, Fin 231, Fin 229]
        = Some (acc_vs, a')"
    and e: "length acc_vs < 2 ^ 32 \<longrightarrow>
          sum_list (map unat (bin (Accumulator.histogram a'))) = length acc_vs"
    using histogram_sum_counts_successes [OF vrms_table, of True "[Fin 230, Fin 231, Fin 229]"]
    by blast
  have run: "accumulate_all True (Accumulator_reset AccumulatorVrms)
        [Fin 230, Fin 231, Fin 229] =
       Some ([Fin 230, Fin 231, Fin 229],
         AccumulatorVrms
           \<lparr>Accumulator.histogram := \<lparr>bin = [0, 0, 0, 0, 0, 1, 2, 0, 0, 0, 0, 0]\<rparr>,
            totalv := Fin 690, Accumulator.minv := Fin 229, Accumulator.maxv := Fin 231\<rparr>)"
    unfolding reset_vrms_id by (rule vrms_three_run)
  have v: "acc_vs = [Fin 230, Fin 231, Fin 229]"
    "a' = AccumulatorVrms
           \<lparr>Accumulator.histogram := \<lparr>bin = [0, 0, 0, 0, 0, 1, 2, 0, 0, 0, 0, 0]\<rparr>,
            totalv := Fin 690, Accumulator.minv := Fin 229, Accumulator.maxv := Fin 231\<rparr>"
    using r unfolding run by simp_all
  show ?thesis
  proof (intro conjI)
    show "accumulate_all True (Accumulator_reset AccumulatorVrms)
        [Fin 230, Fin 231, Fin 229] =
       Some ([Fin 230, Fin 231, Fin 229],
         AccumulatorVrms
           \<lparr>Accumulator.histogram := \<lparr>bin = [0, 0, 0, 0, 0, 1, 2, 0, 0, 0, 0, 0]\<rparr>,
            totalv := Fin 690, Accumulator.minv := Fin 229, Accumulator.maxv := Fin 231\<rparr>)"
      by (rule run)
  qed (use e v vrms_table in simp_all)
qed

theorem min_max_are_true_extremes_witness:
  "binBoundaryPtr AccumulatorVrms = Some binBoundaryV
   \<and> accumulate_all True (Accumulator_reset AccumulatorVrms) [Fin 230, Fin 231, Fin 229] =
       Some ([Fin 230, Fin 231, Fin 229],
         AccumulatorVrms
           \<lparr>Accumulator.histogram := \<lparr>bin = [0, 0, 0, 0, 0, 1, 2, 0, 0, 0, 0, 0]\<rparr>,
            totalv := Fin 690, Accumulator.minv := Fin 229, Accumulator.maxv := Fin 231\<rparr>)
   \<and> [Fin 230, Fin 231, Fin 229] \<noteq> []
   \<and> minmax_of (AccumulatorVrms
           \<lparr>Accumulator.histogram := \<lparr>bin = [0, 0, 0, 0, 0, 1, 2, 0, 0, 0, 0, 0]\<rparr>,
            totalv := Fin 690, Accumulator.minv := Fin 229, Accumulator.maxv := Fin 231\<rparr>)
        [Fin 230, Fin 231, Fin 229]"
proof -
  obtain acc_vs a' where
    r: "accumulate_all True (Accumulator_reset AccumulatorVrms) [Fin 230, Fin 231, Fin 229]
        = Some (acc_vs, a')"
    and e: "acc_vs \<noteq> [] \<longrightarrow> minmax_of a' acc_vs"
    using min_max_are_true_extremes [OF vrms_table, of True "[Fin 230, Fin 231, Fin 229]"]
    by blast
  have run: "accumulate_all True (Accumulator_reset AccumulatorVrms)
        [Fin 230, Fin 231, Fin 229] =
       Some ([Fin 230, Fin 231, Fin 229],
         AccumulatorVrms
           \<lparr>Accumulator.histogram := \<lparr>bin = [0, 0, 0, 0, 0, 1, 2, 0, 0, 0, 0, 0]\<rparr>,
            totalv := Fin 690, Accumulator.minv := Fin 229, Accumulator.maxv := Fin 231\<rparr>)"
    unfolding reset_vrms_id by (rule vrms_three_run)
  have v: "acc_vs = [Fin 230, Fin 231, Fin 229]"
    "a' = AccumulatorVrms
           \<lparr>Accumulator.histogram := \<lparr>bin = [0, 0, 0, 0, 0, 1, 2, 0, 0, 0, 0, 0]\<rparr>,
            totalv := Fin 690, Accumulator.minv := Fin 229, Accumulator.maxv := Fin 231\<rparr>"
    using r unfolding run by simp_all
  show ?thesis
  proof (intro conjI)
    show "accumulate_all True (Accumulator_reset AccumulatorVrms)
        [Fin 230, Fin 231, Fin 229] =
       Some ([Fin 230, Fin 231, Fin 229],
         AccumulatorVrms
           \<lparr>Accumulator.histogram := \<lparr>bin = [0, 0, 0, 0, 0, 1, 2, 0, 0, 0, 0, 0]\<rparr>,
            totalv := Fin 690, Accumulator.minv := Fin 229, Accumulator.maxv := Fin 231\<rparr>)"
      by (rule run)
  qed (use e v vrms_table in simp_all)
qed

lemma vrms_230_after_minus_infinity:
  "Accumulator_accumulate nd
     (AccumulatorVrms
         \<lparr>Accumulator.histogram := \<lparr>bin = [1, 0, 0, 0, 0, 0, 0, 0, 0, 0, 0, 0]\<rparr>,
          totalv := MInf, Accumulator.minv := MInf, Accumulator.maxv := MInf\<rparr>) (Fin 230)
   = Some (True, AccumulatorVrms
         \<lparr>Accumulator.histogram := \<lparr>bin = [1, 0, 0, 0, 0, 0, 1, 0, 0, 0, 0, 0]\<rparr>,
          totalv := MInf, Accumulator.minv := MInf, Accumulator.maxv := Fin 230\<rparr>)"
  by (simp add: AccumulatorVrms_def binBoundaryV_values acc_eval)

theorem accumulate_minus_infinity_witness:
  "binBoundaryPtr AccumulatorVrms = Some binBoundaryV \<and> binBoundaryV \<in> set boundary_tables
   \<and> Accumulator_accumulate True AccumulatorVrms MInf =
       Some (True, AccumulatorVrms
         \<lparr>Accumulator.histogram := \<lparr>bin = [1, 0, 0, 0, 0, 0, 0, 0, 0, 0, 0, 0]\<rparr>,
          totalv := MInf, Accumulator.minv := MInf, Accumulator.maxv := MInf\<rparr>)
   \<and> totalv (AccumulatorVrms
         \<lparr>Accumulator.histogram := \<lparr>bin = [1, 0, 0, 0, 0, 0, 0, 0, 0, 0, 0, 0]\<rparr>,
          totalv := MInf, Accumulator.minv := MInf, Accumulator.maxv := MInf\<rparr>) = MInf
   \<and> Accumulator_accumulate True
        (AccumulatorVrms
         \<lparr>Accumulator.histogram := \<lparr>bin = [1, 0, 0, 0, 0, 0, 0, 0, 0, 0, 0, 0]\<rparr>,
          totalv := MInf, Accumulator.minv := MInf, Accumulator.maxv := MInf\<rparr>) (Fin 230)
       = Some (True, AccumulatorVrms
         \<lparr>Accumulator.histogram := \<lparr>bin = [1, 0, 0, 0, 0, 0, 1, 0, 0, 0, 0, 0]\<rparr>,
          totalv := MInf, Accumulator.minv := MInf, Accumulator.maxv := Fin 230\<rparr>)
   \<and> totalv (AccumulatorVrms
         \<lparr>Accumulator.histogram := \<lparr>bin = [1, 0, 0, 0, 0, 0, 1, 0, 0, 0, 0, 0]\<rparr>,
          totalv := MInf, Accumulator.minv := MInf, Accumulator.maxv := Fin 230\<rparr>) = MInf"
proof -
  let ?a1 = "AccumulatorVrms
         \<lparr>Accumulator.histogram := \<lparr>bin = [1, 0, 0, 0, 0, 0, 0, 0, 0, 0, 0, 0]\<rparr>,
          totalv := MInf, Accumulator.minv := MInf, Accumulator.maxv := MInf\<rparr>"
  let ?a2 = "AccumulatorVrms
         \<lparr>Accumulator.histogram := \<lparr>bin = [1, 0, 0, 0, 0, 0, 1, 0, 0, 0, 0, 0]\<rparr>,
          totalv := MInf, Accumulator.minv := MInf, Accumulator.maxv := Fin 230\<rparr>"
  have first: "Accumulator_accumulate True AccumulatorVrms MInf = Some (True, ?a1)"
    using accumulate_minus_infinity [OF vrms_table binBoundaryV_in_tables, of True]
    by (simp add: AccumulatorVrms_def Accumulator_init_def Histogram_reset_values)
  have t1: "binBoundaryPtr ?a1 = Some binBoundaryV" by (simp add: AccumulatorVrms_def)
  have m1: "totalv ?a1 = MInf" by simp
  have later: "\<forall>v ok a'. Accumulator_accumulate True ?a1 v = Some (ok, a') \<longrightarrow> totalv a' = MInf"
    using accumulate_minus_infinity [OF t1 binBoundaryV_in_tables, of True] m1 by blast
  have second: "Accumulator_accumulate True ?a1 (Fin 230) = Some (True, ?a2)"
    by (rule vrms_230_after_minus_infinity)
  have m2: "totalv ?a2 = MInf" using later second by blast
  show ?thesis using vrms_table binBoundaryV_in_tables first m1 second m2 by blast
qed

section \<open>Wrap-around of a counter\<close>

lemma vrms_zero_step:
  assumes "m = NaN \<or> m = Fin 0"
  shows "Accumulator_accumulate nd
      (AccumulatorVrms\<lparr>Accumulator.histogram := \<lparr>bin = [c, 0, 0, 0, 0, 0, 0, 0, 0, 0, 0, 0]\<rparr>,
         totalv := Fin 0, Accumulator.minv := m, Accumulator.maxv := m\<rparr>) (Fin 0)
    = Some (True,
       AccumulatorVrms\<lparr>Accumulator.histogram := \<lparr>bin = [c + 1, 0, 0, 0, 0, 0, 0, 0, 0, 0, 0, 0]\<rparr>,
         totalv := Fin 0, Accumulator.minv := Fin 0, Accumulator.maxv := Fin 0\<rparr>)"
  using assms by (auto simp: AccumulatorVrms_def binBoundaryV_values acc_eval)

lemma vrms_zero_run:
  assumes "m = NaN \<or> m = Fin 0" "0 < n"
  shows "accumulate_all nd
      (AccumulatorVrms\<lparr>Accumulator.histogram := \<lparr>bin = [c, 0, 0, 0, 0, 0, 0, 0, 0, 0, 0, 0]\<rparr>,
         totalv := Fin 0, Accumulator.minv := m, Accumulator.maxv := m\<rparr>)
      (replicate n (Fin 0))
    = Some (replicate n (Fin 0),
       AccumulatorVrms\<lparr>Accumulator.histogram :=
           \<lparr>bin = [c + of_nat n, 0, 0, 0, 0, 0, 0, 0, 0, 0, 0, 0]\<rparr>,
         totalv := Fin 0, Accumulator.minv := Fin 0, Accumulator.maxv := Fin 0\<rparr>)"
  using assms
proof (induction n arbitrary: c m)
  case 0
  then show ?case by simp
next
  case (Suc n)
  show ?case
  proof (cases "n = 0")
    case True
    then show ?thesis using vrms_zero_step [OF Suc.prems(1), of nd c] by simp
  next
    case False
    then have "0 < n" by simp
    then show ?thesis
      using vrms_zero_step [OF Suc.prems(1), of nd c] Suc.IH [of "Fin 0" "c + 1"]
      by (simp add: add.assoc add.commute)
  qed
qed

lemma reset_vrms:
  "Accumulator_reset AccumulatorVrms =
     AccumulatorVrms\<lparr>Accumulator.histogram := \<lparr>bin = [0, 0, 0, 0, 0, 0, 0, 0, 0, 0, 0, 0]\<rparr>,
         totalv := Fin 0, Accumulator.minv := NaN, Accumulator.maxv := NaN\<rparr>"
  by (simp add: Accumulator_reset_def AccumulatorVrms_def Accumulator_init_def
      Histogram_reset_values)

text \<open>
  Counterexample to C2 as stated. Without the bound the sum can differ from the number of successful calls: after
  \<open>2 ^ 32\<close> successful calls with the value 0.0 on the voltage accumulator the counter of
  bucket 0 has wrapped around to 0, and so has the sum.
\<close>

theorem histogram_sum_wraps_counterexample:
  "accumulate_all True (Accumulator_reset AccumulatorVrms) (replicate (2 ^ 32) (Fin 0))
     = Some (replicate (2 ^ 32) (Fin 0),
         AccumulatorVrms\<lparr>totalv := Fin 0, Accumulator.minv := Fin 0,
                           Accumulator.maxv := Fin 0\<rparr>)
   \<and> sum_list (map unat (bin (Accumulator.histogram
         (AccumulatorVrms\<lparr>totalv := Fin 0, Accumulator.minv := Fin 0,
                           Accumulator.maxv := Fin 0\<rparr>)))) = 0
   \<and> length (replicate (2 ^ 32) (Fin 0)) = (2 ^ 32 :: nat)"
proof -
  have "accumulate_all True (Accumulator_reset AccumulatorVrms) (replicate (2 ^ 32) (Fin 0))
     = Some (replicate (2 ^ 32) (Fin 0),
       AccumulatorVrms\<lparr>Accumulator.histogram :=
           \<lparr>bin = [0 + of_nat (2 ^ 32), 0, 0, 0, 0, 0, 0, 0, 0, 0, 0, 0]\<rparr>,
         totalv := Fin 0, Accumulator.minv := Fin 0, Accumulator.maxv := Fin 0\<rparr>)"
    unfolding reset_vrms by (rule vrms_zero_run) simp_all
  moreover have "AccumulatorVrms\<lparr>Accumulator.histogram :=
           \<lparr>bin = [0 + of_nat (2 ^ 32), 0, 0, 0, 0, 0, 0, 0, 0, 0, 0, 0]\<rparr>,
         totalv := Fin 0, Accumulator.minv := Fin 0, Accumulator.maxv := Fin 0\<rparr>
       = AccumulatorVrms\<lparr>totalv := Fin 0, Accumulator.minv := Fin 0,
                           Accumulator.maxv := Fin 0\<rparr>"
    by (simp add: AccumulatorVrms_def Accumulator_init_def Histogram_reset_values)
  moreover have "sum_list (map unat (bin (Accumulator.histogram
         (AccumulatorVrms\<lparr>totalv := Fin 0, Accumulator.minv := Fin 0,
                           Accumulator.maxv := Fin 0\<rparr>)))) = 0"
    by (simp add: AccumulatorVrms_def Accumulator_init_def Histogram_reset_values)
  ultimately show ?thesis by simp
qed

section \<open>Overflow of the total\<close>

lemma expo_pow2: "expo (2 ^ n) = int n"
proof (induction n)
  case 0
  show ?case by (subst expo.simps) simp
next
  case (Suc n)
  have "(2::real) \<le> 2 * 2 ^ n" by simp
  then show ?case using Suc by (subst expo.simps) simp
qed

lemma d64_2p1023: "d64 (2 ^ 1023) = Fin (2 ^ 1023)"
proof -
  have e: "expo \<bar>2 ^ 1023\<bar> = 1023" using expo_pow2 [of 1023] by simp
  show ?thesis using e by (simp add: d64_def Let_def rne_def pow2_def)
qed

lemma d64_2p1024: "d64 (2 ^ 1023 + 2 ^ 1023) = PInf"
  by (simp add: d64_def)

lemma powerActive_overflow_run:
  "accumulate_all True AccumulatorPowerActive [Fin (2 ^ 1023), Fin (2 ^ 1023), MInf]
   = Some ([Fin (2 ^ 1023), Fin (2 ^ 1023), MInf],
       AccumulatorPowerActive
         \<lparr>Accumulator.histogram := \<lparr>bin = [1, 0, 0, 0, 0, 0, 0, 0, 0, 0, 0, 2]\<rparr>,
          totalv := NaN, Accumulator.minv := MInf, Accumulator.maxv := Fin (2 ^ 1023)\<rparr>)"
  using d64_2p1023 d64_2p1024
  by (simp add: AccumulatorPowerActive_def binBoundaryP_values acc_eval)

text \<open>
  Counterexample to C10 as stated. A total of plus infinity is reached by overflow: two accepted values of \<open>2 ^ 1023\<close>
  on the active power accumulator. The call with minus infinity then leaves the total
  not-a-number, not minus infinity.
\<close>

theorem total_overflow_counterexample:
  "accumulate_all True AccumulatorPowerActive [Fin (2 ^ 1023), Fin (2 ^ 1023), MInf]
   = Some ([Fin (2 ^ 1023), Fin (2 ^ 1023), MInf],
       AccumulatorPowerActive
         \<lparr>Accumulator.histogram := \<lparr>bin = [1, 0, 0, 0, 0, 0, 0, 0, 0, 0, 0, 2]\<rparr>,
          totalv := NaN, Accumulator.minv := MInf, Accumulator.maxv := Fin (2 ^ 1023)\<rparr>)"
  by (rule powerActive_overflow_run)

section \<open>The accumulators of a phase and of a sample, call by call\<close>

lemma phase_accumulate_pairs:
  assumes "Accumulator_accumulate nd (PhaseAccumulator.vrms pa) (Phase.vrms ph) = Some (sV, aV)"
    and "Accumulator_accumulate nd (PhaseAccumulator.irms pa) (Phase.irms ph) = Some (sI, aI)"
    and "Accumulator_accumulate nd (PhaseAccumulator.powerActive pa) (Phase.powerActive ph)
          = Some (sP, aP)"
    and "Accumulator_accumulate nd (PhaseAccumulator.powerReactive pa) (Phase.powerReactive ph)
          = Some (sQ, aQ)"
    and "Accumulator_accumulate nd (PhaseAccumulator.powerFactor pa) (Phase.powerFactor ph)
          = Some (sF, aF)"
  shows "PhaseAccumulator_accumulate nd pa ph =
     (if sV \<and> sI \<and> sP \<and> sQ \<and> sF \<or> nd then
        Some (sV \<and> sI \<and> sP \<and> sQ \<and> sF,
              \<lparr>PhaseAccumulator.vrms = aV, PhaseAccumulator.irms = aI,
               PhaseAccumulator.powerActive = aP, PhaseAccumulator.powerReactive = aQ,
               PhaseAccumulator.powerFactor = aF\<rparr>)
      else None)"
  using assms by (auto simp: PhaseAccumulator_accumulate_def assert_c_def Let_def)

text \<open>
  C6. \<^verbatim>\<open>PhaseAccumulator::accumulate\<close> calls \<^verbatim>\<open>accumulate\<close> on each of its five
  accumulators with the matching value of the phase, whatever the earlier calls returned;
  its result is the conjunction of the five results and the five accumulators are left as
  their own calls left them. With a phase whose current is not-a-number the call returns
  false, the current accumulator is unchanged and the other four have counted their
  value. (With assertions compiled in, the failing call stops at the assertion.)
\<close>

theorem phase_accumulate_no_rollback:
  "(\<exists>sV aV sI aI sP aP sQ aQ sF aF.
      Accumulator_accumulate True (PhaseAccumulator.vrms pa) (Phase.vrms ph) = Some (sV, aV)
    \<and> Accumulator_accumulate True (PhaseAccumulator.irms pa) (Phase.irms ph) = Some (sI, aI)
    \<and> Accumulator_accumulate True (PhaseAccumulator.powerActive pa) (Phase.powerActive ph)
        = Some (sP, aP)
    \<and> Accumulator_accumulate True (PhaseAccumulator.powerReactive pa) (Phase.powerReactive ph)
        = Some (sQ, aQ)
    \<and> Accumulator_accumulate True (PhaseAccumulator.powerFactor pa) (Phase.powerFactor ph)
        = Some (sF, aF)
    \<and> PhaseAccumulator_accumulate True pa ph =
        Some (sV \<and> sI \<and> sP \<and> sQ \<and> sF,
              \<lparr>PhaseAccumulator.vrms = aV, PhaseAccumulator.irms = aI,
               PhaseAccumulator.powerActive = aP, PhaseAccumulator.powerReactive = aQ,
               PhaseAccumulator.powerFactor = aF\<rparr>))
   \<and> PhaseAccumulator_accumulate True PhaseAccumulator_init
        \<lparr>Phase.vrms = Fin 230, Phase.irms = NaN, Phase.powerActive = Fin 100,
         Phase.powerReactive = Fin 50, Phase.powerFactor = Fin 0\<rparr>
      = Some (False,
         \<lparr>PhaseAccumulator.vrms = AccumulatorVrms
            \<lparr>Accumulator.histogram := \<lparr>bin = [0, 0, 0, 0, 0, 0, 1, 0, 0, 0, 0, 0]\<rparr>,
             totalv := Fin 230, Accumulator.minv := Fin 230, Accumulator.maxv := Fin 230\<rparr>,
          PhaseAccumulator.irms = AccumulatorIrms,
          PhaseAccumulator.powerActive = AccumulatorPowerActive
            \<lparr>Accumulator.histogram := \<lparr>bin = [0, 0, 0, 0, 0, 0, 0, 1, 0, 0, 0, 0]\<rparr>,
             totalv := Fin 100, Accumulator.minv := Fin 100, Accumulator.maxv := Fin 100\<rparr>,
          PhaseAccumulator.powerReactive = AccumulatorPowerReactive
            \<lparr>Accumulator.histogram := \<lparr>bin = [0, 0, 0, 0, 0, 0, 1, 0, 0, 0, 0, 0]\<rparr>,
             totalv := Fin 50, Accumulator.minv := Fin 50, Accumulator.maxv := Fin 50\<rparr>,
          PhaseAccumulator.powerFactor = AccumulatorPowerFactor
            \<lparr>Accumulator.histogram := \<lparr>bin = [0, 0, 0, 0, 0, 0, 1, 0, 0, 0, 0, 0]\<rparr>,
             totalv := Fin 0, Accumulator.minv := Fin 0, Accumulator.maxv := Fin 0\<rparr>\<rparr>)
   \<and> PhaseAccumulator_accumulate False PhaseAccumulator_init
        \<lparr>Phase.vrms = Fin 230, Phase.irms = NaN, Phase.powerActive = Fin 100,
         Phase.powerReactive = Fin 50, Phase.powerFactor = Fin 0\<rparr>
      = None"
proof (intro conjI)
  obtain sV aV where v: "Accumulator_accumulate True (PhaseAccumulator.vrms pa) (Phase.vrms ph) = Some (sV, aV)"
    using accumulate_ndebug_returns by blast
  obtain sI aI where i: "Accumulator_accumulate True (PhaseAccumulator.irms pa) (Phase.irms ph) = Some (sI, aI)"
    using accumulate_ndebug_returns by blast
  obtain sP aP where p: "Accumulator_accumulate True (PhaseAccumulator.powerActive pa) (Phase.powerActive ph) = Some (sP, aP)"
    using accumulate_ndebug_returns by blast
  obtain sQ aQ where q: "Accumulator_accumulate True (PhaseAccumulator.powerReactive pa) (Phase.powerReactive ph) = Some (sQ, aQ)"
    using accumulate_ndebug_returns by blast
  obtain sF aF where f: "Accumulator_accumulate True (PhaseAccumulator.powerFactor pa) (Phase.powerFactor ph) = Some (sF, aF)"
    using accumulate_ndebug_returns by blast
  show "\<exists>sV aV sI aI sP aP sQ aQ sF aF.
      Accumulator_accumulate True (PhaseAccumulator.vrms pa) (Phase.vrms ph) = Some (sV, aV)
    \<and> Accumulator_accumulate True (PhaseAccumulator.irms pa) (Phase.irms ph) = Some (sI, aI)
    \<and> Accumulator_accumulate True (PhaseAccumulator.powerActive pa) (Phase.powerActive ph)
        = Some (sP, aP)
    \<and> Accumulator_accumulate True (PhaseAccumulator.powerReactive pa) (Phase.powerReactive ph)
        = Some (sQ, aQ)
    \<and> Accumulator_accumulate True (PhaseAccumulator.powerFactor pa) (Phase.powerFactor ph)
        = Some (sF, aF)
    \<and> PhaseAccumulator_accumulate True pa ph =
        Some (sV \<and> sI \<and> sP \<and> sQ \<and> sF,
              \<lparr>PhaseAccumulator.vrms = aV, PhaseAccumulator.irms = aI,
               PhaseAccumulator.powerActive = aP, PhaseAccumulator.powerReactive = aQ,
               PhaseAccumulator.powerFactor = aF\<rparr>)"
    using v i p q f phase_accumulate_pairs [OF v i p q f] by auto
next
  show "PhaseAccumulator_accumulate True PhaseAccumulator_init
        \<lparr>Phase.vrms = Fin 230, Phase.irms = NaN, Phase.powerActive = Fin 100,
         Phase.powerReactive = Fin 50, Phase.powerFactor = Fin 0\<rparr>
      = Some (False,
         \<lparr>PhaseAccumulator.vrms = AccumulatorVrms
            \<lparr>Accumulator.histogram := \<lparr>bin = [0, 0, 0, 0, 0, 0, 1, 0, 0, 0, 0, 0]\<rparr>,
             totalv := Fin 230, Accumulator.minv := Fin 230, Accumulator.maxv := Fin 230\<rparr>,
          PhaseAccumulator.irms = AccumulatorIrms,
          PhaseAccumulator.powerActive = AccumulatorPowerActive
            \<lparr>Accumulator.histogram := \<lparr>bin = [0, 0, 0, 0, 0, 0, 0, 1, 0, 0, 0, 0]\<rparr>,
             totalv := Fin 100, Accumulator.minv := Fin 100, Accumulator.maxv := Fin 100\<rparr>,
          PhaseAccumulator.powerReactive = AccumulatorPowerReactive
            \<lparr>Accumulator.histogram := \<lparr>bin = [0, 0, 0, 0, 0, 0, 1, 0, 0, 0, 0, 0]\<rparr>,
             totalv := Fin 50, Accumulator.minv := Fin 50, Accumulator.maxv := Fin 50\<rparr>,
          PhaseAccumulator.powerFactor = AccumulatorPowerFactor
            \<lparr>Accumulator.histogram := \<lparr>bin = [0, 0, 0, 0, 0, 0, 1, 0, 0, 0, 0, 0]\<rparr>,
             totalv := Fin 0, Accumulator.minv := Fin 0, Accumulator.maxv := Fin 0\<rparr>\<rparr>)"
    using phase_one_nan_example [of True] by simp
next
  show "PhaseAccumulator_accumulate False PhaseAccumulator_init
        \<lparr>Phase.vrms = Fin 230, Phase.irms = NaN, Phase.powerActive = Fin 100,
         Phase.powerReactive = Fin 50, Phase.powerFactor = Fin 0\<rparr>
      = None"
    using phase_one_nan_example [of False] by simp
qed

lemma sample_accumulate_parts:
  assumes "PhaseAccumulator_accumulate nd (SampleAccumulator.p1 sa) (Sample.p1 smp) = Some (s1, a1)"
    and "PhaseAccumulator_accumulate nd (SampleAccumulator.p2 sa) (Sample.p2 smp) = Some (s2, a2)"
    and "PhaseAccumulator_accumulate nd (SampleAccumulator.p3 sa) (Sample.p3 smp) = Some (s3, a3)"
    and "Accumulator_accumulate nd (SampleAccumulator.frequency sa) (Sample.frequency smp)
          = Some (sF, aF)"
  shows "SampleAccumulator_accumulate nd now sa smp =
     (if s1 \<and> s2 \<and> s3 \<and> sF then
        Some (True, sa\<lparr>SampleAccumulator.p1 := a1, SampleAccumulator.p2 := a2,
                       SampleAccumulator.p3 := a3, SampleAccumulator.frequency := aF,
                       SampleAccumulator.count := SampleAccumulator.count sa + 1,
                       SampleAccumulator.tsEnd := now\<rparr>)
      else if nd then
        Some (False, sa\<lparr>SampleAccumulator.p1 := a1, SampleAccumulator.p2 := a2,
                        SampleAccumulator.p3 := a3, SampleAccumulator.frequency := aF\<rparr>)
      else None)"
  using assms by (auto simp: SampleAccumulator_accumulate_def assert_c_def Let_def)

text \<open>
  C7. \<^verbatim>\<open>SampleAccumulator::accumulate\<close> calls the three phase accumulators and the
  frequency accumulator; its result is the conjunction of the four results, all four are
  left as their calls left them, and the count is incremented and \<open>tsEnd\<close> set to the
  current time exactly when all four succeeded; otherwise both are unchanged. In the
  example every phase has a not-a-number current and the frequency is not-a-number: the
  call returns false, count and \<open>tsEnd\<close> keep their values, and the voltage accumulator
  of phase 1 has counted 230.0 all the same.
\<close>

theorem sample_accumulate_counts_full_success_only:
  "(\<exists>s1 a1 s2 a2 s3 a3 sF aF.
      PhaseAccumulator_accumulate True (SampleAccumulator.p1 sa) (Sample.p1 smp) = Some (s1, a1)
    \<and> PhaseAccumulator_accumulate True (SampleAccumulator.p2 sa) (Sample.p2 smp) = Some (s2, a2)
    \<and> PhaseAccumulator_accumulate True (SampleAccumulator.p3 sa) (Sample.p3 smp) = Some (s3, a3)
    \<and> Accumulator_accumulate True (SampleAccumulator.frequency sa) (Sample.frequency smp)
        = Some (sF, aF)
    \<and> SampleAccumulator_accumulate True now sa smp =
        Some (s1 \<and> s2 \<and> s3 \<and> sF,
              sa\<lparr>SampleAccumulator.p1 := a1, SampleAccumulator.p2 := a2,
                 SampleAccumulator.p3 := a3, SampleAccumulator.frequency := aF,
                 SampleAccumulator.count :=
                   (if s1 \<and> s2 \<and> s3 \<and> sF then SampleAccumulator.count sa + 1
                    else SampleAccumulator.count sa),
                 SampleAccumulator.tsEnd :=
                   (if s1 \<and> s2 \<and> s3 \<and> sF then now else SampleAccumulator.tsEnd sa)\<rparr>))
   \<and> (let ph = \<lparr>Phase.vrms = Fin 230, Phase.irms = NaN, Phase.powerActive = Fin 100,
                  Phase.powerReactive = Fin 50, Phase.powerFactor = Fin 0\<rparr>;
            smp1 = \<lparr>Sample.p1 = ph, Sample.p2 = ph, Sample.p3 = ph, Sample.frequency = NaN\<rparr>
        in (\<exists>sa'. SampleAccumulator_accumulate True 7 (acc (Report_init 0)) smp1
                    = Some (False, sa')
              \<and> SampleAccumulator.count sa' = 0 \<and> SampleAccumulator.tsEnd sa' = 0
              \<and> SampleAccumulator.frequency sa' = AccumulatorFrequency
              \<and> bin (Accumulator.histogram (PhaseAccumulator.vrms (SampleAccumulator.p1 sa')))
                  = [0, 0, 0, 0, 0, 0, 1, 0, 0, 0, 0, 0]
              \<and> totalv (PhaseAccumulator.vrms (SampleAccumulator.p1 sa')) = Fin 230)
           \<and> SampleAccumulator_accumulate False 7 (acc (Report_init 0)) smp1 = None)"
proof (intro conjI)
  obtain s1 a1 where p1: "PhaseAccumulator_accumulate True (SampleAccumulator.p1 sa) (Sample.p1 smp) = Some (s1, a1)"
    using phase_accumulate_ndebug_returns by blast
  obtain s2 a2 where p2: "PhaseAccumulator_accumulate True (SampleAccumulator.p2 sa) (Sample.p2 smp) = Some (s2, a2)"
    using phase_accumulate_ndebug_returns by blast
  obtain s3 a3 where p3: "PhaseAccumulator_accumulate True (SampleAccumulator.p3 sa) (Sample.p3 smp) = Some (s3, a3)"
    using phase_accumulate_ndebug_returns by blast
  obtain sF aF where f: "Accumulator_accumulate True (SampleAccumulator.frequency sa) (Sample.frequency smp) = Some (sF, aF)"
    using accumulate_ndebug_returns by blast
  have "SampleAccumulator_accumulate True now sa smp =
        Some (s1 \<and> s2 \<and> s3 \<and> sF,
              sa\<lparr>SampleAccumulator.p1 := a1, SampleAccumulator.p2 := a2,
                 SampleAccumulator.p3 := a3, SampleAccumulator.frequency := aF,
                 SampleAccumulator.count :=
                   (if s1 \<and> s2 \<and> s3 \<and> sF then SampleAccumulator.count sa + 1
                    else SampleAccumulator.count sa),
                 SampleAccumulator.tsEnd :=
                   (if s1 \<and> s2 \<and> s3 \<and> sF then now else SampleAccumulator.tsEnd sa)\<rparr>)"
    by (cases "s1 \<and> s2 \<and> s3 \<and> sF") (auto simp: sample_accumulate_parts [OF p1 p2 p3 f])
  then show "\<exists>s1 a1 s2 a2 s3 a3 sF aF.
      PhaseAccumulator_accumulate True (SampleAccumulator.p1 sa) (Sample.p1 smp) = Some (s1, a1)
    \<and> PhaseAccumulator_accumulate True (SampleAccumulator.p2 sa) (Sample.p2 smp) = Some (s2, a2)
    \<and> PhaseAccumulator_accumulate True (SampleAccumulator.p3 sa) (Sample.p3 smp) = Some (s3, a3)
    \<and> Accumulator_accumulate True (SampleAccumulator.frequency sa) (Sample.frequency smp)
        = Some (sF, aF)
    \<and> SampleAccumulator_accumulate True now sa smp =
        Some (s1 \<and> s2 \<and> s3 \<and> sF,
              sa\<lparr>SampleAccumulator.p1 := a1, SampleAccumulator.p2 := a2,
                 SampleAccumulator.p3 := a3, SampleAccumulator.frequency := aF,
                 SampleAccumulator.count :=
                   (if s1 \<and> s2 \<and> s3 \<and> sF then SampleAccumulator.count sa + 1
                    else SampleAccumulator.count sa),
                 SampleAccumulator.tsEnd :=
                   (if s1 \<and> s2 \<and> s3 \<and> sF then now else SampleAccumulator.tsEnd sa)\<rparr>)"
    using p1 p2 p3 f by blast
next
  show "let ph = \<lparr>Phase.vrms = Fin 230, Phase.irms = NaN, Phase.powerActive = Fin 100,
                  Phase.powerReactive = Fin 50, Phase.powerFactor = Fin 0\<rparr>;
            smp1 = \<lparr>Sample.p1 = ph, Sample.p2 = ph, Sample.p3 = ph, Sample.frequency = NaN\<rparr>
        in (\<exists>sa'. SampleAccumulator_accumulate True 7 (acc (Report_init 0)) smp1
                    = Some (False, sa')
              \<and> SampleAccumulator.count sa' = 0 \<and> SampleAccumulator.tsEnd sa' = 0
              \<and> SampleAccumulator.frequency sa' = AccumulatorFrequency
              \<and> bin (Accumulator.histogram (PhaseAccumulator.vrms (SampleAccumulator.p1 sa')))
                  = [0, 0, 0, 0, 0, 0, 1, 0, 0, 0, 0, 0]
              \<and> totalv (PhaseAccumulator.vrms (SampleAccumulator.p1 sa')) = Fin 230)
           \<and> SampleAccumulator_accumulate False 7 (acc (Report_init 0)) smp1 = None"
    unfolding Let_def
    by (simp add: sample_partial_example [of True, simplified]
        sample_partial_example [of False, simplified])
qed

section \<open>Three voltage samples\<close>

lemma accumulate_in_range:
  assumes "has_table a" "in_range v"
  shows "\<exists>a'. Accumulator_accumulate nd a v = Some (True, a') \<and> has_table a'"
proof -
  obtain bs where t: "bs \<in> set boundary_tables" "binBoundaryPtr a = Some bs"
    using assms(1) by (auto simp: has_table_def)
  have v: "v \<noteq> NaN" "v \<noteq> PInf" using assms(2) by (simp_all add: in_range_def isnan_iff)
  have lt: "scan_bins v bs 0 < HISTOGRAM_BINS" by (rule scan_bins_accept [OF t(1) v])
  obtain a' where s: "Accumulator_accumulate nd a v = Some (True, a')"
    using accumulate_success [OF t(2) lt, of nd] by simp
  have "binBoundaryPtr a' = Some bs" using accumulate_keeps_table [OF t(2) s] by simp
  then have "has_table a'" using t(1) by (auto simp: has_table_def)
  then show ?thesis using s by simp
qed

lemma phase_accumulate_in_range:
  assumes "phase_has_tables pa" "Phase_in_range ph"
  shows "\<exists>pa'. PhaseAccumulator_accumulate nd pa ph = Some (True, pa') \<and> phase_has_tables pa'
     \<and> Accumulator_accumulate nd (PhaseAccumulator.vrms pa) (Phase.vrms ph)
         = Some (True, PhaseAccumulator.vrms pa')"
proof -
  obtain aV where v: "Accumulator_accumulate nd (PhaseAccumulator.vrms pa) (Phase.vrms ph) = Some (True, aV)" "has_table aV"
    using accumulate_in_range [of "PhaseAccumulator.vrms pa" "Phase.vrms ph" nd] assms
    by (auto simp: phase_has_tables_def Phase_in_range_def)
  obtain aI where i: "Accumulator_accumulate nd (PhaseAccumulator.irms pa) (Phase.irms ph) = Some (True, aI)" "has_table aI"
    using accumulate_in_range [of "PhaseAccumulator.irms pa" "Phase.irms ph" nd] assms
    by (auto simp: phase_has_tables_def Phase_in_range_def)
  obtain aP where p: "Accumulator_accumulate nd (PhaseAccumulator.powerActive pa) (Phase.powerActive ph) = Some (True, aP)" "has_table aP"
    using accumulate_in_range [of "PhaseAccumulator.powerActive pa" "Phase.powerActive ph" nd] assms
    by (auto simp: phase_has_tables_def Phase_in_range_def)
  obtain aQ where q: "Accumulator_accumulate nd (PhaseAccumulator.powerReactive pa) (Phase.powerReactive ph) = Some (True, aQ)" "has_table aQ"
    using accumulate_in_range [of "PhaseAccumulator.powerReactive pa" "Phase.powerReactive ph" nd] assms
    by (auto simp: phase_has_tables_def Phase_in_range_def)
  obtain aF where f: "Accumulator_accumulate nd (PhaseAccumulator.powerFactor pa) (Phase.powerFactor ph) = Some (True, aF)" "has_table aF"
    using accumulate_in_range [of "PhaseAccumulator.powerFactor pa" "Phase.powerFactor ph" nd] assms
    by (auto simp: phase_has_tables_def Phase_in_range_def)
  show ?thesis
    using phase_accumulate_pairs [OF v(1) i(1) p(1) q(1) f(1)] v i p q f
    by (simp add: phase_has_tables_def)
qed

lemma sample_accumulate_in_range:
  assumes "sample_has_tables sa" "Sample_in_range smp"
  shows "\<exists>sa'. SampleAccumulator_accumulate nd now sa smp = Some (True, sa')
     \<and> sample_has_tables sa'
     \<and> SampleAccumulator.count sa' = SampleAccumulator.count sa + 1
     \<and> SampleAccumulator.tsEnd sa' = now
     \<and> SampleAccumulator.tsStart sa' = SampleAccumulator.tsStart sa
     \<and> Accumulator_accumulate nd (PhaseAccumulator.vrms (SampleAccumulator.p1 sa))
           (Phase.vrms (Sample.p1 smp))
         = Some (True, PhaseAccumulator.vrms (SampleAccumulator.p1 sa'))"
proof -
  obtain a1 where p1: "PhaseAccumulator_accumulate nd (SampleAccumulator.p1 sa) (Sample.p1 smp) = Some (True, a1)"
    "phase_has_tables a1"
    "Accumulator_accumulate nd (PhaseAccumulator.vrms (SampleAccumulator.p1 sa))
           (Phase.vrms (Sample.p1 smp)) = Some (True, PhaseAccumulator.vrms a1)"
    using phase_accumulate_in_range [of "SampleAccumulator.p1 sa" "Sample.p1 smp" nd] assms
    by (auto simp: sample_has_tables_def Sample_in_range_def)
  obtain a2 where p2: "PhaseAccumulator_accumulate nd (SampleAccumulator.p2 sa) (Sample.p2 smp) = Some (True, a2)"
    "phase_has_tables a2"
    using phase_accumulate_in_range [of "SampleAccumulator.p2 sa" "Sample.p2 smp" nd] assms
    by (auto simp: sample_has_tables_def Sample_in_range_def)
  obtain a3 where p3: "PhaseAccumulator_accumulate nd (SampleAccumulator.p3 sa) (Sample.p3 smp) = Some (True, a3)"
    "phase_has_tables a3"
    using phase_accumulate_in_range [of "SampleAccumulator.p3 sa" "Sample.p3 smp" nd] assms
    by (auto simp: sample_has_tables_def Sample_in_range_def)
  obtain aF where f: "Accumulator_accumulate nd (SampleAccumulator.frequency sa) (Sample.frequency smp) = Some (True, aF)"
    "has_table aF"
    using accumulate_in_range [of "SampleAccumulator.frequency sa" "Sample.frequency smp" nd] assms
    by (auto simp: sample_has_tables_def Sample_in_range_def)
  show ?thesis
    using sample_accumulate_parts [OF p1(1) p2(1) p3(1) f(1), of now] p1 p2 p3 f
    by (simp add: sample_has_tables_def)
qed

lemma Report_init_has_tables: "sample_has_tables (acc (Report_init now))"
  by (simp add: Report_init_acc sample_has_tables_def phase_has_tables_def has_table_def
      PhaseAccumulator_init_def AccumulatorVrms_def AccumulatorIrms_def
      AccumulatorPowerActive_def AccumulatorPowerReactive_def AccumulatorPowerFactor_def
      AccumulatorFrequency_def binBoundaryV_in_tables binBoundaryF_in_tables)
    (simp add: boundary_tables_def)

lemma Report_init_p1_vrms:
  "PhaseAccumulator.vrms (SampleAccumulator.p1 (acc (Report_init now))) = AccumulatorVrms"
  "Report_count (Report_init now) = 0"
  by (simp_all add: Report_init_acc PhaseAccumulator_init_def Report_count_def)

lemma report_accumulate_in_range:
  assumes "sample_has_tables (acc r)" "Sample_in_range smp"
  shows "\<exists>r'. Report_accumulate nd now r smp = Some (True, r')
     \<and> sample_has_tables (acc r')
     \<and> Report_count r' = Report_count r + 1
     \<and> Accumulator_accumulate nd (PhaseAccumulator.vrms (SampleAccumulator.p1 (acc r)))
           (Phase.vrms (Sample.p1 smp))
         = Some (True, PhaseAccumulator.vrms (SampleAccumulator.p1 (acc r')))"
proof -
  obtain sa' where s: "SampleAccumulator_accumulate nd now (acc r) smp = Some (True, sa')"
    "sample_has_tables sa'" "SampleAccumulator.count sa' = SampleAccumulator.count (acc r) + 1"
    "Accumulator_accumulate nd (PhaseAccumulator.vrms (SampleAccumulator.p1 (acc r)))
           (Phase.vrms (Sample.p1 smp))
         = Some (True, PhaseAccumulator.vrms (SampleAccumulator.p1 sa'))"
    using sample_accumulate_in_range [OF assms, of nd now] by blast
  show ?thesis using s by (simp add: Report_accumulate_def Report_count_def)
qed

lemma report_summarise_counted:
  assumes "Report_count r \<noteq> 0"
  shows "\<exists>ss'. Report_summarise nd r ss = Some (True, ss')
     \<and> SampleSummary.count ss' = Report_count r
     \<and> Accumulator_summarise nd (PhaseAccumulator.vrms (SampleAccumulator.p1 (acc r)))
           (PhaseSummary.vrms (SampleSummary.p1 ss)) (Report_count r)
         = Some (True, PhaseSummary.vrms (SampleSummary.p1 ss'))"
  using assms
  by (simp add: Report_summarise_def SampleAccumulator_summarise_def
      PhaseAccumulator_summarise_def Accumulator_summarise_def Let_def Report_count_def)

lemma vrms_summarise_three_any:
  "Accumulator_summarise nd
     (AccumulatorVrms
       \<lparr>Accumulator.histogram := \<lparr>bin = [0, 0, 0, 0, 0, 1, 2, 0, 0, 0, 0, 0]\<rparr>,
        totalv := Fin 690, Accumulator.minv := Fin 229, Accumulator.maxv := Fin 231\<rparr>)
     s 3 =
   Some (True, \<lparr>Summary.histogram = \<lparr>bin = [0, 0, 0, 0, 0, 1, 2, 0, 0, 0, 0, 0]\<rparr>,
                 avg = Fin 230, Summary.minv = Fin 229, Summary.maxv = Fin 231\<rparr>)"
  by (cases s)
    (simp add: Accumulator_summarise_def AccumulatorVrms_def Accumulator_init_def
      round_dp_def pow10_1 double_of_u32_def d64_small_values)

text \<open>
  C8. On the voltage accumulator of the 230 V profile the values 230.0, 231.0 and 229.0
  select the buckets 6, 6 and 5, that is \<open>[230, 235)\<close>, \<open>[230, 235)\<close> and
  \<open>[225, 230)\<close>. Fed to a new report, three samples with these voltages on phase 1,
  all their values in range, are accepted; the voltage histogram of phase 1 grows
  accordingly, the count is 3, and \<^verbatim>\<open>summarise\<close> returns true with average 230.0,
  minimum 229.0, maximum 231.0 and a histogram whose counters add up to 3 for that
  voltage.
\<close>

theorem vrms_three_samples:
  assumes "Sample_in_range s1" "Sample_in_range s2" "Sample_in_range s3"
    and "Phase.vrms (Sample.p1 s1) = Fin 230" "Phase.vrms (Sample.p1 s2) = Fin 231"
      "Phase.vrms (Sample.p1 s3) = Fin 229"
  shows "scan_bins (Fin 230) binBoundaryV 0 = 6
   \<and> scan_bins (Fin 231) binBoundaryV 0 = 6
   \<and> scan_bins (Fin 229) binBoundaryV 0 = 5
   \<and> binBoundaryV ! 4 = Fin 225 \<and> binBoundaryV ! 5 = Fin 230 \<and> binBoundaryV ! 6 = Fin 235
   \<and> (\<exists>r1 r2 r3 ss'.
        Report_accumulate nd t1 (Report_init t0) s1 = Some (True, r1)
      \<and> Report_accumulate nd t2 r1 s2 = Some (True, r2)
      \<and> Report_accumulate nd t3 r2 s3 = Some (True, r3)
      \<and> bin (Accumulator.histogram (PhaseAccumulator.vrms (SampleAccumulator.p1 (acc r1))))
          = [0, 0, 0, 0, 0, 0, 1, 0, 0, 0, 0, 0]
      \<and> bin (Accumulator.histogram (PhaseAccumulator.vrms (SampleAccumulator.p1 (acc r2))))
          = [0, 0, 0, 0, 0, 0, 2, 0, 0, 0, 0, 0]
      \<and> bin (Accumulator.histogram (PhaseAccumulator.vrms (SampleAccumulator.p1 (acc r3))))
          = [0, 0, 0, 0, 0, 1, 2, 0, 0, 0, 0, 0]
      \<and> Report_count r3 = 3
      \<and> Report_summarise nd r3 ss = Some (True, ss')
      \<and> SampleSummary.count ss' = 3
      \<and> PhaseSummary.vrms (SampleSummary.p1 ss') =
          \<lparr>Summary.histogram = \<lparr>bin = [0, 0, 0, 0, 0, 1, 2, 0, 0, 0, 0, 0]\<rparr>,
           avg = Fin 230, Summary.minv = Fin 229, Summary.maxv = Fin 231\<rparr>)
   \<and> sum_list (map unat [0, 0, 0, 0, 0, 1, 2, 0, 0, 0, 0, 0 :: u32]) = 3"
proof -
  have s: "scan_bins (Fin 230) binBoundaryV 0 = 6" "scan_bins (Fin 231) binBoundaryV 0 = 6"
    "scan_bins (Fin 229) binBoundaryV 0 = 5"
    by (simp_all add: binBoundaryV_values scan_bins_eval)
  have b: "binBoundaryV ! 4 = Fin 225 \<and> binBoundaryV ! 5 = Fin 230 \<and> binBoundaryV ! 6 = Fin 235"
    by (simp add: binBoundaryV_values)
  obtain r1 where r1: "Report_accumulate nd t1 (Report_init t0) s1 = Some (True, r1)"
    "sample_has_tables (acc r1)" "Report_count r1 = 1"
    "Accumulator_accumulate nd AccumulatorVrms (Fin 230)
       = Some (True, PhaseAccumulator.vrms (SampleAccumulator.p1 (acc r1)))"
    using report_accumulate_in_range [OF Report_init_has_tables assms(1), where nd = nd and now = t1] assms(4)
    by (auto simp: Report_init_p1_vrms)
  have v1: "PhaseAccumulator.vrms (SampleAccumulator.p1 (acc r1)) = AccumulatorVrms
       \<lparr>Accumulator.histogram := \<lparr>bin = [0, 0, 0, 0, 0, 0, 1, 0, 0, 0, 0, 0]\<rparr>,
        totalv := Fin 230, Accumulator.minv := Fin 230, Accumulator.maxv := Fin 230\<rparr>"
    using r1(4) unfolding vrms_230_first by simp
  obtain r2 where r2: "Report_accumulate nd t2 r1 s2 = Some (True, r2)"
    "sample_has_tables (acc r2)" "Report_count r2 = 2"
    "Accumulator_accumulate nd (PhaseAccumulator.vrms (SampleAccumulator.p1 (acc r1))) (Fin 231)
       = Some (True, PhaseAccumulator.vrms (SampleAccumulator.p1 (acc r2)))"
    using report_accumulate_in_range [OF r1(2) assms(2), where nd = nd and now = t2] assms(5) r1(3)
    by auto
  have v2: "PhaseAccumulator.vrms (SampleAccumulator.p1 (acc r2)) = AccumulatorVrms
       \<lparr>Accumulator.histogram := \<lparr>bin = [0, 0, 0, 0, 0, 0, 2, 0, 0, 0, 0, 0]\<rparr>,
        totalv := Fin 461, Accumulator.minv := Fin 230, Accumulator.maxv := Fin 231\<rparr>"
    using r2(4) unfolding v1 vrms_231_second by simp
  obtain r3 where r3: "Report_accumulate nd t3 r2 s3 = Some (True, r3)"
    "sample_has_tables (acc r3)" "Report_count r3 = 3"
    "Accumulator_accumulate nd (PhaseAccumulator.vrms (SampleAccumulator.p1 (acc r2))) (Fin 229)
       = Some (True, PhaseAccumulator.vrms (SampleAccumulator.p1 (acc r3)))"
    using report_accumulate_in_range [OF r2(2) assms(3), where nd = nd and now = t3] assms(6) r2(3)
    by auto
  have v3: "PhaseAccumulator.vrms (SampleAccumulator.p1 (acc r3)) = AccumulatorVrms
       \<lparr>Accumulator.histogram := \<lparr>bin = [0, 0, 0, 0, 0, 1, 2, 0, 0, 0, 0, 0]\<rparr>,
        totalv := Fin 690, Accumulator.minv := Fin 229, Accumulator.maxv := Fin 231\<rparr>"
    using r3(4) unfolding v2 vrms_229_third by simp
  have c: "Report_count r3 \<noteq> 0" using r3(3) by simp
  obtain ss' where ss: "Report_summarise nd r3 ss = Some (True, ss')"
    "SampleSummary.count ss' = Report_count r3"
    "Accumulator_summarise nd (PhaseAccumulator.vrms (SampleAccumulator.p1 (acc r3)))
           (PhaseSummary.vrms (SampleSummary.p1 ss)) (Report_count r3)
         = Some (True, PhaseSummary.vrms (SampleSummary.p1 ss'))"
    using report_summarise_counted [OF c, where nd = nd and ss = ss] by blast
  have sv: "PhaseSummary.vrms (SampleSummary.p1 ss') =
          \<lparr>Summary.histogram = \<lparr>bin = [0, 0, 0, 0, 0, 1, 2, 0, 0, 0, 0, 0]\<rparr>,
           avg = Fin 230, Summary.minv = Fin 229, Summary.maxv = Fin 231\<rparr>"
    using ss(3) unfolding v3 r3(3) vrms_summarise_three_any by simp
  have h: "bin (Accumulator.histogram (PhaseAccumulator.vrms (SampleAccumulator.p1 (acc r1))))
          = [0, 0, 0, 0, 0, 0, 1, 0, 0, 0, 0, 0]"
    "bin (Accumulator.histogram (PhaseAccumulator.vrms (SampleAccumulator.p1 (acc r2))))
          = [0, 0, 0, 0, 0, 0, 2, 0, 0, 0, 0, 0]"
    "bin (Accumulator.histogram (PhaseAccumulator.vrms (SampleAccumulator.p1 (acc r3))))
          = [0, 0, 0, 0, 0, 1, 2, 0, 0, 0, 0, 0]"
    by (simp_all add: v1 v2 v3)
  have e: "\<exists>r1 r2 r3 ss'.
        Report_accumulate nd t1 (Report_init t0) s1 = Some (True, r1)
      \<and> Report_accumulate nd t2 r1 s2 = Some (True, r2)
      \<and> Report_accumulate nd t3 r2 s3 = Some (True, r3)
      \<and> bin (Accumulator.histogram (PhaseAccumulator.vrms (SampleAccumulator.p1 (acc r1))))
          = [0, 0, 0, 0, 0, 0, 1, 0, 0, 0, 0, 0]
      \<and> bin (Accumulator.histogram (PhaseAccumulator.vrms (SampleAccumulator.p1 (acc r2))))
          = [0, 0, 0, 0, 0, 0, 2, 0, 0, 0, 0, 0]
      \<and> bin (Accumulator.histogram (PhaseAccumulator.vrms (SampleAccumulator.p1 (acc r3))))
          = [0, 0, 0, 0, 0, 1, 2, 0, 0, 0, 0, 0]
      \<and> Report_count r3 = 3
      \<and> Report_summarise nd r3 ss = Some (True, ss')
      \<and> SampleSummary.count ss' = 3
      \<and> PhaseSummary.vrms (SampleSummary.p1 ss') =
          \<lparr>Summary.histogram = \<lparr>bin = [0, 0, 0, 0, 0, 1, 2, 0, 0, 0, 0, 0]\<rparr>,
           avg = Fin 230, Summary.minv = Fin 229, Summary.maxv = Fin 231\<rparr>"
    using r1(1) r2(1) r3(1) h r3(3) ss(1) ss(2) sv by auto
  have u: "sum_list (map unat [0, 0, 0, 0, 0, 1, 2, 0, 0, 0, 0, 0 :: u32]) = 3" by simp
  show ?thesis using s b e u by blast
qed

theorem vrms_three_samples_witness:
  "Sample_in_range (Sample_init\<lparr>Sample.p1 := Phase_reset\<lparr>Phase.vrms := Fin 230\<rparr>\<rparr>)
   \<and> Sample_in_range (Sample_init\<lparr>Sample.p1 := Phase_reset\<lparr>Phase.vrms := Fin 231\<rparr>\<rparr>)
   \<and> Sample_in_range (Sample_init\<lparr>Sample.p1 := Phase_reset\<lparr>Phase.vrms := Fin 229\<rparr>\<rparr>)
   \<and> (\<exists>r1 r2 r3 ss'.
        Report_accumulate True 1 (Report_init 0)
          (Sample_init\<lparr>Sample.p1 := Phase_reset\<lparr>Phase.vrms := Fin 230\<rparr>\<rparr>) = Some (True, r1)
      \<and> Report_accumulate True 2 r1
          (Sample_init\<lparr>Sample.p1 := Phase_reset\<lparr>Phase.vrms := Fin 231\<rparr>\<rparr>) = Some (True, r2)
      \<and> Report_accumulate True 3 r2
          (Sample_init\<lparr>Sample.p1 := Phase_reset\<lparr>Phase.vrms := Fin 229\<rparr>\<rparr>) = Some (True, r3)
      \<and> Report_count r3 = 3
      \<and> Report_summarise True r3
           \<lparr>SampleSummary.p1 = \<lparr>PhaseSummary.vrms = Summary_reset,
                PhaseSummary.irms = Summary_reset, PhaseSummary.powerActive = Summary_reset,
                PhaseSummary.powerReactive = Summary_reset,
                PhaseSummary.powerFactor = Summary_reset\<rparr>,
            SampleSummary.p2 = \<lparr>PhaseSummary.vrms = Summary_reset,
                PhaseSummary.irms = Summary_reset, PhaseSummary.powerActive = Summary_reset,
                PhaseSummary.powerReactive = Summary_reset,
                PhaseSummary.powerFactor = Summary_reset\<rparr>,
            SampleSummary.p3 = \<lparr>PhaseSummary.vrms = Summary_reset,
                PhaseSummary.irms = Summary_reset, PhaseSummary.powerActive = Summary_reset,
                PhaseSummary.powerReactive = Summary_reset,
                PhaseSummary.powerFactor = Summary_reset\<rparr>,
            SampleSummary.frequency = Summary_reset, SampleSummary.count = 0,
            SampleSummary.intervalMin = 0, SampleSummary.intervalMax = 0,
            SampleSummary.tsStart = 0, SampleSummary.tsEnd = 0\<rparr> = Some (True, ss')
      \<and> PhaseSummary.vrms (SampleSummary.p1 ss') =
          \<lparr>Summary.histogram = \<lparr>bin = [0, 0, 0, 0, 0, 1, 2, 0, 0, 0, 0, 0]\<rparr>,
           avg = Fin 230, Summary.minv = Fin 229, Summary.maxv = Fin 231\<rparr>)"
proof -
  have i: "Sample_in_range (Sample_init\<lparr>Sample.p1 := Phase_reset\<lparr>Phase.vrms := Fin 230\<rparr>\<rparr>)"
    "Sample_in_range (Sample_init\<lparr>Sample.p1 := Phase_reset\<lparr>Phase.vrms := Fin 231\<rparr>\<rparr>)"
    "Sample_in_range (Sample_init\<lparr>Sample.p1 := Phase_reset\<lparr>Phase.vrms := Fin 229\<rparr>\<rparr>)"
    by (simp_all add: Sample_in_range_def Phase_in_range_def in_range_def Sample_init_def
        Phase_reset_def)
  have v: "Phase.vrms (Sample.p1 (Sample_init\<lparr>Sample.p1 := Phase_reset\<lparr>Phase.vrms := Fin 230\<rparr>\<rparr>)) = Fin 230"
    "Phase.vrms (Sample.p1 (Sample_init\<lparr>Sample.p1 := Phase_reset\<lparr>Phase.vrms := Fin 231\<rparr>\<rparr>)) = Fin 231"
    "Phase.vrms (Sample.p1 (Sample_init\<lparr>Sample.p1 := Phase_reset\<lparr>Phase.vrms := Fin 229\<rparr>\<rparr>)) = Fin 229"
    by simp_all
  show ?thesis
    using i vrms_three_samples [OF i v, where nd = True and ?t1.0 = 1 and ?t0.0 = 0 and ?t2.0 = 2
        and ?t3.0 = 3]
    by blast
qed

text \<open>
  Counterexample to C8 as stated. The value 231.0 is not counted in the bucket \<open>[225, 230)\<close> (bucket 5): the first
  boundary above it is 235.
\<close>

theorem vrms_231_bucket_counterexample:
  "accumulate_all True AccumulatorVrms [Fin 231] =
     Some ([Fin 231], AccumulatorVrms
       \<lparr>Accumulator.histogram := \<lparr>bin = [0, 0, 0, 0, 0, 0, 1, 0, 0, 0, 0, 0]\<rparr>,
        totalv := Fin 231, Accumulator.minv := Fin 231, Accumulator.maxv := Fin 231\<rparr>)
   \<and> binBoundaryV ! 4 = Fin 225 \<and> binBoundaryV ! 5 = Fin 230 \<and> binBoundaryV ! 6 = Fin 235
   \<and> scan_bins (Fin 231) binBoundaryV 0 \<noteq> 5"
  by (simp add: vrms_231_first binBoundaryV_values scan_bins_eval)

section \<open>Rounding at zero, one and two decimal places\<close>

lemma pow10_0: "pow10 0 = Fin 1"
  by (simp add: pow10_def d64_eval)

lemma pow10_small:
  assumes "p = 0 \<or> p = 1 \<or> p = 2"
  shows "pow10 p = Fin (10 ^ nat p)"
  using assms pow10_0 pow10_1 pow10_2 by auto

lemma round_dp_finite_product:
  assumes "p = 0 \<or> p = 1 \<or> p = 2" and "d64 (10 ^ nat p * x) = Fin y"
  shows "round_dp (Fin x) p = d64 (of_int \<lfloor>y\<rfloor> / 10 ^ nat p)"
  using assms(2) by (simp add: round_dp_def pow10_small [OF assms(1)])

lemma d64_nearest_any:
  assumes "d64 x = Fin y"
  shows "\<bar>y - x\<bar> \<le> pow2 (max (expo \<bar>x\<bar>) (- 1022) - 53)"
proof (cases "x = 0")
  case True
  then have "y = 0" using assms by (simp add: d64_def)
  then show ?thesis using True pow2_pos [of "max (expo \<bar>x\<bar>) (- 1022) - 53"] by simp
next
  case False
  then show ?thesis by (rule d64_nearest [OF assms])
qed

text \<open>
  C4. At zero, one and two decimal places, for a finite \<open>x\<close> whose product with
  \<open>10 ^ p\<close> does not overflow, \<^verbatim>\<open>round\<close> returns the binary64 quotient of
  \<open>floor y\<close> by \<open>10 ^ p\<close>, where \<open>y\<close> is the binary64 product \<open>10 ^ p * x\<close>: the
  floor is taken, not the nearest integer, but of the rounded product, which lies within
  half a unit in the last place of the exact one. So the integer that is divided is the
  floor of the exact product when the product is exact, and in general is at most the
  exact product plus that rounding error. 2.449 and 2.49 both give 2.4 at one decimal
  place, and -1.05 gives -1.1.
\<close>

theorem round_dp_floor_of_rounded_product:
  assumes "p = 0 \<or> p = 1 \<or> p = 2" and "d64 (10 ^ nat p * x) = Fin y"
  shows "round_dp (Fin x) p = d64 (of_int \<lfloor>y\<rfloor> / 10 ^ nat p)
     \<and> \<bar>y - 10 ^ nat p * x\<bar> \<le> pow2 (max (expo \<bar>10 ^ nat p * x\<bar>) (- 1022) - 53)
     \<and> of_int \<lfloor>y\<rfloor>
           \<le> 10 ^ nat p * x + pow2 (max (expo \<bar>10 ^ nat p * x\<bar>) (- 1022) - 53)
     \<and> 10 ^ nat p * x - pow2 (max (expo \<bar>10 ^ nat p * x\<bar>) (- 1022) - 53) - 1
           < of_int \<lfloor>y\<rfloor>
     \<and> (y = 10 ^ nat p * x \<longrightarrow>
          round_dp (Fin x) p = d64 (of_int \<lfloor>10 ^ nat p * x\<rfloor> / 10 ^ nat p))
     \<and> round_dp (d64 (2449 / 1000)) 1 = d64 (24 / 10)
     \<and> round_dp (d64 (- (105 / 100))) 1 = d64 (- (11 / 10))
     \<and> round_dp (d64 (249 / 100)) 1 = d64 (24 / 10)"
proof -
  have r: "round_dp (Fin x) p = d64 (of_int \<lfloor>y\<rfloor> / 10 ^ nat p)"
    by (rule round_dp_finite_product [OF assms])
  have n: "\<bar>y - 10 ^ nat p * x\<bar> \<le> pow2 (max (expo \<bar>10 ^ nat p * x\<bar>) (- 1022) - 53)"
    by (rule d64_nearest_any [OF assms(2)])
  have a: "round_dp (d64 (2449 / 1000)) 1 = d64 (24 / 10)"
    by (simp add: round_dp_def pow10_1 d64_eval)
  have b: "round_dp (d64 (- (105 / 100))) 1 = d64 (- (11 / 10))"
    by (simp add: round_dp_def pow10_1 d64_eval)
  have c: "round_dp (d64 (249 / 100)) 1 = d64 (24 / 10)"
    by (simp add: round_dp_def pow10_1 d64_eval)
  have u: "of_int \<lfloor>y\<rfloor>
           \<le> 10 ^ nat p * x + pow2 (max (expo \<bar>10 ^ nat p * x\<bar>) (- 1022) - 53)"
    using n by linarith
  have l: "10 ^ nat p * x - pow2 (max (expo \<bar>10 ^ nat p * x\<bar>) (- 1022) - 53) - 1
           < of_int \<lfloor>y\<rfloor>"
    using n by linarith
  show ?thesis using r n u l a b c by simp
qed

lemma d64_2449: "d64 (2449 / 1000) = Fin (1378664435928793 / 562949953421312)"
  by (simp add: d64_eval)

lemma d64_10_times_2449:
  "d64 (10 ^ nat 1 * (1378664435928793 / 562949953421312))
     = Fin (6893322179643965 / 281474976710656)"
  by (simp add: d64_eval)

theorem round_dp_floor_of_rounded_product_witness:
  "((1::int) = 0 \<or> (1::int) = 1 \<or> (1::int) = 2)
   \<and> d64 (10 ^ nat 1 * (1378664435928793 / 562949953421312))
       = Fin (6893322179643965 / 281474976710656)
   \<and> round_dp (Fin (1378664435928793 / 562949953421312)) 1 = d64 (24 / 10)"
proof -
  have p: "(1::int) = 0 \<or> (1::int) = 1 \<or> (1::int) = 2" by simp
  have "round_dp (Fin (1378664435928793 / 562949953421312)) 1
        = d64 (of_int \<lfloor>6893322179643965 / 281474976710656 :: real\<rfloor> / 10 ^ nat 1)"
    using round_dp_floor_of_rounded_product [OF p d64_10_times_2449] by blast
  moreover have "\<lfloor>6893322179643965 / 281474976710656 :: real\<rfloor> = 24" by simp
  ultimately have "round_dp (Fin (1378664435928793 / 562949953421312)) 1 = d64 (24 / 10)"
    by simp
  then show ?thesis using d64_10_times_2449 by simp
qed

lemma d64_below_09:
  "d64 (2026619832316723 / 2251799813685248) = Fin (2026619832316723 / 2251799813685248)"
  by (simp add: d64_eval)

text \<open>
  Counterexample to C4 as stated. The result is not always the next multiple of
  \<open>10 ^ - p\<close> below the argument: for the binary64 number just below 0.9 the product
  with 10 rounds to 9, and the result is the binary64 number nearest to 0.9, above the
  argument, where the floor of the exact product is 8.
\<close>

theorem round_dp_above_input_counterexample:
  "d64 (2026619832316723 / 2251799813685248) = Fin (2026619832316723 / 2251799813685248)
   \<and> round_dp (Fin (2026619832316723 / 2251799813685248)) 1
       = Fin (8106479329266893 / 9007199254740992)
   \<and> (2026619832316723 / 2251799813685248 :: real) < 8106479329266893 / 9007199254740992
   \<and> \<lfloor>10 ^ 1 * (2026619832316723 / 2251799813685248 :: real)\<rfloor> = 8
   \<and> d64 (9 / 10) = Fin (8106479329266893 / 9007199254740992)"
  by (simp add: round_dp_def pow10_1 d64_eval)

end
